theory Spec2Isabelle
  imports Main "HOL-Library.Word" "HOL-Library.AList" "HOL-Library.Char_ord"
    "HOL-Library.List_Lexorder"
begin

section \<open>Strings and paths (Go standard library)\<close>

text \<open>
  A Go string is a byte sequence, modelled as \<^typ>\<open>string\<close>.  The store only uses
  four functions of the standard library on paths: \<open>strings.Split(s, "/")\<close>,
  \<open>path.Clean\<close>, \<open>path.Join\<close> and \<open>path.Split\<close>.
\<close>

abbreviation slash :: char where
  "slash \<equiv> CHR ''/''"

text \<open>\<open>strings.Split(s, "/")\<close>: the pieces of \<open>s\<close> between slashes; never empty.\<close>

fun Split :: "string \<Rightarrow> string list" where
  "Split [] = [[]]"
| "Split (c # s) =
     (if c = slash then [] # Split s
      else (case Split s of [] \<Rightarrow> [[c]] | x # xs \<Rightarrow> (c # x) # xs))"

text \<open>\<open>strings.Join(elems, "/")\<close>.\<close>

fun joinSlash :: "string list \<Rightarrow> string" where
  "joinSlash [] = []"
| "joinSlash [x] = x"
| "joinSlash (x # y # zs) = x @ slash # joinSlash (y # zs)"

text \<open>
  \<open>path.Clean\<close>: empty and \<open>.\<close> elements are dropped, \<open>..\<close> removes the element
  before it (at the start of a rooted path it is dropped, at the start of a relative
  path it is kept), and the empty result is \<open>.\<close>.
\<close>

fun cleanElems :: "bool \<Rightarrow> string list \<Rightarrow> string list \<Rightarrow> string list" where
  "cleanElems rooted out [] = out"
| "cleanElems rooted out (c # cs) =
     (if c = [] \<or> c = ''.'' then cleanElems rooted out cs
      else if c = ''..'' then
        (if out \<noteq> [] \<and> last out \<noteq> ''..'' then cleanElems rooted (butlast out) cs
         else if rooted then cleanElems rooted out cs
         else cleanElems rooted (out @ [c]) cs)
      else cleanElems rooted (out @ [c]) cs)"

definition Clean :: "string \<Rightarrow> string" where
  "Clean p =
     (let rooted = (p \<noteq> [] \<and> hd p = slash);
          out = joinSlash (cleanElems rooted [] (Split p))
      in if rooted then slash # out else if out = [] then ''.'' else out)"

text \<open>\<open>path.Join\<close>: the non-empty elements joined by slashes, then cleaned.\<close>

definition Join :: "string list \<Rightarrow> string" where
  "Join elems =
     (case filter (\<lambda>e. e \<noteq> []) elems of [] \<Rightarrow> [] | es \<Rightarrow> Clean (joinSlash es))"

text \<open>\<open>path.Split\<close>: the path up to and including its last slash, and the rest.\<close>

definition path_Split :: "string \<Rightarrow> string \<times> string" where
  "path_Split p =
     (let file = rev (takeWhile (\<lambda>c. c \<noteq> slash) (rev p))
      in (take (length p - length file) p, file))"

text \<open>
  \<open>pathCleaning\<close>: \<open>path.Clean\<close>, then the last character is removed when it is a
  slash.  \<open>path.Clean\<close> never returns the empty string, so the index
  \<open>pathlength - 1\<close> is always in range.
\<close>

definition pathCleaning :: "string \<Rightarrow> string" where
  "pathCleaning nodePath =
     (let nodePath = Clean nodePath
      in if nodePath \<noteq> [] \<and> last nodePath = slash then butlast nodePath else nodePath)"

text \<open>\<open>%v\<close> of an unsigned integer: its decimal digits.\<close>

fun showNat :: "nat \<Rightarrow> string" where
  "showNat n =
     (if n < 10 then [char_of (48 + n)]
      else showNat (n div 10) @ [char_of (48 + n mod 10)])"

section \<open>Errors and events\<close>

datatype Ecode =
    EcodeKeyNotFound
  | EcodeTestFailed
  | EcodeNodeExist
  | EcodeNotFile
  | EcodeNotDir
  | EcodeDirNotEmpty
  | EcodePermissionDenied

text \<open>
  Modelled from the spec: the error values of the package \<open>etcdErr\<close> (the package
  is not among the sources; the codes are those of the spec's error taxonomy).
  \<open>etcdErr.NewError(code, cause)\<close> is \<open>Error code cause\<close>; \<open>Panic\<close> stands for a
  run-time panic of the Go program.
\<close>

datatype Error = Error (ErrorCode: Ecode) (Cause: string) | Panic

text \<open>
  Modelled from the spec: the expiration instant of a node (the \<open>time.Time\<close> values
  and the package variable \<open>Permanent\<close> are declared outside the sources); an
  instant is either the sentinel \<open>Permanent\<close> or a point on the clock.
\<close>

datatype Time = Permanent | At int

datatype Action =
  ActionGet | ActionCreate | ActionUpdate | ActionDelete | ActionTestAndSet | ActionExpire

text \<open>
  Modelled from the spec: the \<open>KeyValuePair\<close> of a directory listing (key, value,
  directory flag and the nested listing).
\<close>

datatype KeyValuePair =
  KeyValuePair (pairKey: string) (pairValue: string) (pairDir: bool)
    (pairKVPairs: "KeyValuePair list")

text \<open>
  Modelled from the spec: the \<open>Event\<close> record built by \<open>newEvent(action, key, index,
  term)\<close>.  The \<open>TTL\<close> field, which is computed from \<open>time.Now()\<close>, is left out.
\<close>

record Event =
  Action :: Action
  Key :: string
  PrevValue :: string
  Value :: string
  Dir :: bool
  KVPairs :: "KeyValuePair list"
  Expiration :: "Time option"
  EventIndex :: "64 word"
  EventTerm :: "64 word"

definition newEvent :: "Action \<Rightarrow> string \<Rightarrow> 64 word \<Rightarrow> 64 word \<Rightarrow> Event" where
  "newEvent action key index term =
     \<lparr>Action = action, Key = key, PrevValue = [], Value = [], Dir = False,
      KVPairs = [], Expiration = None, EventIndex = index, EventTerm = term\<rparr>"

section \<open>Nodes\<close>

text \<open>
  Modelled from the spec: the \<open>Node\<close> type and its constructors \<open>newFile\<close> and
  \<open>newDir\<close> (the file declaring them is not among the sources).  The fields are
  those of the data model of the spec; \<open>Expirers\<close> counts the live timers armed for
  the node (\<open>go n.Expire()\<close> arms one, a send on \<open>n.stopExpire\<close> cancels one).  The
  parent back-reference is not stored: a pointer to a node is modelled as the list of
  child names that leads to it from the root, together with the node it points to.
\<close>

record NodeInfo =
  Path :: string
  CreateIndex :: "64 word"
  CreateTerm :: "64 word"
  ModifiedIndex :: "64 word"
  ModifiedTerm :: "64 word"
  ACL :: string
  NodeValue :: string
  ExpireTime :: Time
  Expirers :: nat
  IsDir :: bool

datatype Node = Node (info: NodeInfo) (Children: "(string \<times> Node) list")

type_synonym ptr = "string list"

definition newFile ::
  "string \<Rightarrow> string \<Rightarrow> 64 word \<Rightarrow> 64 word \<Rightarrow> string \<Rightarrow> Time \<Rightarrow> Node" where
  "newFile nodePath value createIndex createTerm acl expireTime =
     Node \<lparr>Path = nodePath, CreateIndex = createIndex, CreateTerm = createTerm,
           ModifiedIndex = createIndex, ModifiedTerm = createTerm, ACL = acl,
           NodeValue = value, ExpireTime = expireTime, Expirers = 0, IsDir = False\<rparr> []"

definition newDir :: "string \<Rightarrow> 64 word \<Rightarrow> 64 word \<Rightarrow> string \<Rightarrow> Time \<Rightarrow> Node" where
  "newDir nodePath createIndex createTerm acl expireTime =
     Node \<lparr>Path = nodePath, CreateIndex = createIndex, CreateTerm = createTerm,
           ModifiedIndex = createIndex, ModifiedTerm = createTerm, ACL = acl,
           NodeValue = [], ExpireTime = expireTime, Expirers = 0, IsDir = True\<rparr> []"

text \<open>Reading and writing through a pointer.\<close>

primrec lookup :: "ptr \<Rightarrow> Node \<Rightarrow> Node option" where
  "lookup [] n = Some n"
| "lookup (c # cs) n =
     (case map_of (Children n) c of None \<Rightarrow> None | Some child \<Rightarrow> lookup cs child)"

primrec modifyAt :: "ptr \<Rightarrow> (Node \<Rightarrow> Node) \<Rightarrow> Node \<Rightarrow> Node" where
  "modifyAt [] f = f"
| "modifyAt (c # cs) f =
     (\<lambda>n. Node (info n) (AList.map_entry c (modifyAt cs f) (Children n)))"

definition mapInfo :: "(NodeInfo \<Rightarrow> NodeInfo) \<Rightarrow> Node \<Rightarrow> Node" where
  "mapInfo f n = Node (f (info n)) (Children n)"

text \<open>
  Modelled from the spec: \<open>Node.IsHidden\<close> (a node whose last path segment starts
  with an underscore) and \<open>Node.List\<close> (the children of a directory).
\<close>

definition IsHidden :: "Node \<Rightarrow> bool" where
  "IsHidden n = (case snd (path_Split (Path (info n))) of [] \<Rightarrow> False | c # _ \<Rightarrow> c = CHR ''_'')"

definition List :: "Node \<Rightarrow> Node list" where
  "List n = map snd (Children n)"

text \<open>
  Modelled from the spec: \<open>Node.Write\<close>, the write of a file node by Update and
  CompareAndSwap: a non-empty value replaces the stored one, and the modification
  index and term are always updated.
\<close>

definition Write :: "string \<Rightarrow> 64 word \<Rightarrow> 64 word \<Rightarrow> Node \<Rightarrow> Node" where
  "Write value index term =
     mapInfo (\<lambda>a. a\<lparr>NodeValue := (if value \<noteq> [] then value else NodeValue a),
                    ModifiedIndex := index, ModifiedTerm := term\<rparr>)"

text \<open>
  Modelled from the spec: \<open>Node.Add\<close>, which enters a child into a directory under
  the last segment of the child's path.
\<close>

definition Add :: "Node \<Rightarrow> Node \<Rightarrow> Error + Node" where
  "Add child n =
     (let name = snd (path_Split (Path (info child)))
      in if \<not> IsDir (info n) then Inl (Error EcodeNotDir [])
         else if map_of (Children n) name \<noteq> None then Inl (Error EcodeNodeExist [])
         else Inr (Node (info n) (Children n @ [(name, child)])))"

text \<open>
  Modelled from the spec: the Expirer of a node (\<open>Node.Expire\<close> and the channel
  \<open>stopExpire\<close> are declared outside the sources).  \<open>go n.Expire()\<close> arms one
  timer, a send on \<open>n.stopExpire\<close> cancels one; cancelling no timer is a no-op.
\<close>

definition armExpire :: "Node \<Rightarrow> Node" where
  "armExpire = mapInfo (\<lambda>a. a\<lparr>Expirers := Suc (Expirers a)\<rparr>)"

definition stopExpire :: "Node \<Rightarrow> Node" where
  "stopExpire = mapInfo (\<lambda>a. a\<lparr>Expirers := Expirers a - 1\<rparr>)"

section \<open>The file system\<close>

text \<open>
  The struct \<open>FileSystem\<close>.  In place of the field \<open>WatcherHub\<close> it has the list
  \<open>Notified\<close> of the events handed to the hub, each with the path it was
  delivered for.
\<close>

record FileSystem =
  Root :: Node
  Index :: "64 word"
  Term :: "64 word"
  Notified :: "(string \<times> Event) list"

text \<open>
  Modelled from the spec: \<open>watcherHub.notify\<close> and \<open>watcherHub.notifyWithPath\<close>
  (the hub is not among the sources); the event is recorded as delivered.
\<close>

definition notify :: "Event \<Rightarrow> FileSystem \<Rightarrow> FileSystem" where
  "notify e fs = fs\<lparr>Notified := Notified fs @ [(Key e, e)]\<rparr>"

definition notifyWithPath :: "Event \<Rightarrow> string \<Rightarrow> FileSystem \<Rightarrow> FileSystem" where
  "notifyWithPath e p fs = fs\<lparr>Notified := Notified fs @ [(p, e)]\<rparr>"

type_synonym walkFunc =
  "FileSystem \<Rightarrow> ptr \<times> Node \<Rightarrow> string \<Rightarrow> (Error + ptr \<times> Node) \<times> FileSystem"

text \<open>
  \<open>walk\<close>: the loop over \<open>components[1:]\<close>, which stops at the first empty
  component.
\<close>

fun walkLoop ::
  "walkFunc \<Rightarrow> string list \<Rightarrow> FileSystem \<Rightarrow> ptr \<times> Node \<Rightarrow> (Error + ptr \<times> Node) \<times> FileSystem" where
  "walkLoop walkFunc [] fs cur = (Inr cur, fs)"
| "walkLoop walkFunc (c # cs) fs cur =
     (if c = [] then (Inr cur, fs)
      else (case walkFunc fs cur c of
              (Inl err, fs') \<Rightarrow> (Inl err, fs')
            | (Inr next, fs') \<Rightarrow> walkLoop walkFunc cs fs' next))"

definition walk :: "FileSystem \<Rightarrow> string \<Rightarrow> walkFunc \<Rightarrow> (Error + ptr \<times> Node) \<times> FileSystem" where
  "walk fs nodePath walkFunc = walkLoop walkFunc (drop 1 (Split nodePath)) fs ([], Root fs)"

text \<open>The closure \<open>walkFunc\<close> of \<open>InternalGet\<close>.\<close>

definition getWalkFunc :: walkFunc where
  "getWalkFunc fs parent name =
     (case parent of (loc, p) \<Rightarrow>
        if \<not> IsDir (info p) then (Inl (Error EcodeNotDir (Path (info p))), fs)
        else (case map_of (Children p) name of
                Some child \<Rightarrow> (Inr (loc @ [name], child), fs)
              | None \<Rightarrow> (Inl (Error EcodeKeyNotFound (Join [Path (info p), name])), fs)))"

definition InternalGet ::
  "FileSystem \<Rightarrow> string \<Rightarrow> 64 word \<Rightarrow> 64 word \<Rightarrow> (Error + ptr \<times> Node) \<times> FileSystem" where
  "InternalGet fs nodePath index term =
     walk (fs\<lparr>Index := index, Term := term\<rparr>) nodePath getWalkFunc"

section \<open>The ACL adapter\<close>

definition getUser :: string where
  "getUser = ''admin''"

definition getUserByCertSubj :: string where
  "getUserByCertSubj = ''test''"

text \<open>
  \<open>checkPerm\<close>: one internal read per character of \<open>perm\<close>.  An error of Go is
  \<open>Some err\<close>, \<open>nil\<close> is \<open>None\<close>.  (The characters of \<open>perm\<close> are taken as bytes;
  every caller passes one of the ASCII literals \<open>r\<close>, \<open>w\<close>, \<open>rw\<close>.)
\<close>

fun checkPermLoop ::
  "FileSystem \<Rightarrow> string \<Rightarrow> string \<Rightarrow> string \<Rightarrow> string \<Rightarrow> Error option \<times> FileSystem" where
  "checkPermLoop fs aclName perm user [] = (None, fs)"
| "checkPermLoop fs aclName perm user (char # rest) =
     (case InternalGet fs (Join [''/ACL'', aclName, [char], user]) (Index fs) (Term fs) of
        (Inl err, fs') \<Rightarrow> (Some (Error EcodePermissionDenied perm), fs')
      | (Inr _, fs') \<Rightarrow> checkPermLoop fs' aclName perm user rest)"

definition checkPerm :: "FileSystem \<Rightarrow> string \<Rightarrow> string \<Rightarrow> Error option \<times> FileSystem" where
  "checkPerm fs aclName perm = checkPermLoop fs aclName perm getUser perm"

text \<open>The older variant \<open>check_perm\<close>, which joins the ACL path itself with the user.\<close>

fun check_permLoop ::
  "FileSystem \<Rightarrow> string \<Rightarrow> string \<Rightarrow> string \<Rightarrow> string \<Rightarrow> Error option \<times> FileSystem" where
  "check_permLoop fs acl perm user [] = (None, fs)"
| "check_permLoop fs acl perm user (char # rest) =
     (case InternalGet fs (Join [acl, [char], user]) (Index fs) (Term fs) of
        (Inl err, fs') \<Rightarrow> (Some (Error EcodePermissionDenied perm), fs')
      | (Inr _, fs') \<Rightarrow> check_permLoop fs' acl perm user rest)"

definition check_perm :: "FileSystem \<Rightarrow> string \<Rightarrow> string \<Rightarrow> Error option \<times> FileSystem" where
  "check_perm fs acl perm = check_permLoop fs acl perm getUserByCertSubj perm"

text \<open>
  \<open>hasPerm\<close>: the check on the node and, for a recursive check of a directory, on
  every child that is not hidden; the first error ends the loop over the children.
\<close>

fun hasPerm :: "FileSystem \<Rightarrow> Node \<Rightarrow> string \<Rightarrow> bool \<Rightarrow> Error option \<times> FileSystem"
  and hasPermChildren ::
    "FileSystem \<Rightarrow> (string \<times> Node) list \<Rightarrow> string \<Rightarrow> bool \<Rightarrow> Error option \<times> FileSystem" where
  "hasPerm fs (Node a children) perm recursive =
     (case checkPerm fs (ACL a) perm of
        (Some err, fs') \<Rightarrow> (Some err, fs')
      | (None, fs') \<Rightarrow>
          if IsDir a \<and> recursive then hasPermChildren fs' children perm recursive
          else (None, fs'))"
| "hasPermChildren fs [] perm recursive = (None, fs)"
| "hasPermChildren fs ((name, child) # rest) perm recursive =
     (if IsHidden child then hasPermChildren fs rest perm recursive
      else (case hasPerm fs child perm recursive of
              (Some err, fs') \<Rightarrow> (Some err, fs')
            | (None, fs') \<Rightarrow> hasPermChildren fs' rest perm recursive))"

text \<open>
  \<open>hasPermOnParent\<close>: the loop over \<open>components[1 .. len - 2]\<close>; the check is made
  at the first name that is missing, and the function returns \<open>nil\<close> when the loop
  ends.
\<close>

fun hasPermOnParentLoop ::
  "FileSystem \<Rightarrow> Node \<Rightarrow> string list \<Rightarrow> string \<Rightarrow> Error option \<times> FileSystem" where
  "hasPermOnParentLoop fs curNode [] perm = (None, fs)"
| "hasPermOnParentLoop fs curNode (nodeName # rest) perm =
     (case map_of (Children curNode) nodeName of
        None \<Rightarrow> checkPerm fs (ACL (info curNode)) perm
      | Some child \<Rightarrow> hasPermOnParentLoop fs child rest perm)"

definition hasPermOnParent :: "FileSystem \<Rightarrow> string \<Rightarrow> string \<Rightarrow> Error option \<times> FileSystem" where
  "hasPermOnParent fs nodePath perm =
     hasPermOnParentLoop fs (Root fs) (butlast (drop 1 (Split nodePath))) perm"

section \<open>Operations\<close>

text \<open>
  Modelled from the spec: \<open>Node.Pair\<close>, the listing entry of a node.  Hidden
  children are omitted; a directory lists its children only when \<open>recursive\<close> is set,
  sorted by key when \<open>sorted\<close> (here \<open>sorting\<close>) is set.
\<close>

fun Pair :: "bool \<Rightarrow> bool \<Rightarrow> Node \<Rightarrow> KeyValuePair" where
  "Pair recursive sorting (Node a children) =
     (if IsDir a then
        KeyValuePair (Path a) [] True
          (if recursive then
             (let pairs = map (\<lambda>(name, child). Pair recursive sorting child)
                            (filter (\<lambda>(name, child). \<not> IsHidden child) children)
              in if sorting then sort_key pairKey pairs else pairs)
           else [])
      else KeyValuePair (Path a) (NodeValue a) False [])"

text \<open>
  Every operation returns its result together with the file system it leaves behind:
  the assignments to \<open>fs.Index\<close> and \<open>fs.Term\<close> persist when the operation fails.
\<close>

definition Get ::
  "FileSystem \<Rightarrow> string \<Rightarrow> bool \<Rightarrow> bool \<Rightarrow> 64 word \<Rightarrow> 64 word \<Rightarrow> (Error + Event) \<times> FileSystem" where
  "Get fs nodePath recursive sorting index term =
     (let nodePath = pathCleaning (slash # nodePath)
      in case InternalGet fs nodePath index term of
           (Inl err, fs1) \<Rightarrow> (Inl err, fs1)
         | (Inr (loc, n), fs1) \<Rightarrow>
             (case hasPerm fs1 n ''r'' recursive of
                (Some err, fs2) \<Rightarrow> (Inl err, fs2)
              | (None, fs2) \<Rightarrow>
                  (let e = newEvent ActionGet nodePath index term
                   in if IsDir (info n) then
                        (let pairs = map (Pair recursive sorting)
                                       (filter (\<lambda>child. \<not> IsHidden child) (List n))
                         in (Inr (e\<lparr>Dir := True,
                                    KVPairs := (if sorting then sort_key pairKey pairs else pairs)\<rparr>),
                             fs2))
                      else (Inr (e\<lparr>Value := NodeValue (info n)\<rparr>), fs2))))"

text \<open>
  \<open>checkDir\<close>: an existing child is returned whatever its kind; a missing one is
  created as a permanent directory with the ACL of its parent.  A file has no
  children map, so the assignment to \<open>parent.Children[dirName]\<close> panics under a file.
\<close>

definition checkDir :: walkFunc where
  "checkDir fs parent dirName =
     (case parent of (loc, p) \<Rightarrow>
        (case map_of (Children p) dirName of
           Some subDir \<Rightarrow> (Inr (loc @ [dirName], subDir), fs)
         | None \<Rightarrow>
             if \<not> IsDir (info p) then (Inl Panic, fs)
             else
               (let n = newDir (Join [Path (info p), dirName]) (Index fs) (Term fs)
                          (ACL (info p)) Permanent
                in (Inr (loc @ [dirName], n),
                    fs\<lparr>Root := modifyAt loc
                       (\<lambda>p. Node (info p) (Children p @ [(dirName, n)])) (Root fs)\<rparr>))))"

text \<open>
  \<open>InternalCreate\<close>: create without permission check.  The event stores the
  expiration of the node as it is when the event is built.
\<close>

definition InternalCreate ::
  "FileSystem \<Rightarrow> string \<Rightarrow> string \<Rightarrow> Time \<Rightarrow> 64 word \<Rightarrow> 64 word \<Rightarrow> (Error + Event) \<times> FileSystem" where
  "InternalCreate fs nodePath value expireTime index term =
     (let dir = fst (path_Split nodePath)
      in case walk fs dir checkDir of
           (Inl err, fs1) \<Rightarrow> (Inl err, fs1)
         | (Inr (loc, d), fs1) \<Rightarrow>
             (let e = newEvent ActionCreate nodePath (Index fs1) (Term fs1);
                  e = (if value \<noteq> [] then e\<lparr>Value := value\<rparr> else e\<lparr>Dir := True\<rparr>);
                  n = (if value \<noteq> []
                       then newFile nodePath value (Index fs1) (Term fs1) (ACL (info d)) expireTime
                       else newDir nodePath (Index fs1) (Term fs1) (ACL (info d)) expireTime)
              in case Add n d of
                   Inl err \<Rightarrow> (Inl err, fs1)
                 | Inr d' \<Rightarrow>
                     (let fs2 = fs1\<lparr>Root := modifyAt loc (\<lambda>_. d') (Root fs1)\<rparr>;
                          name = snd (path_Split nodePath)
                      in if expireTime \<noteq> Permanent then
                           (let fs3 = fs2\<lparr>Root := modifyAt (loc @ [name]) armExpire (Root fs2)\<rparr>;
                                e = e\<lparr>Expiration := Some expireTime\<rparr>
                            in (Inr e, notify e fs3))
                         else (Inr e, notify e fs2))))"

definition Create ::
  "FileSystem \<Rightarrow> string \<Rightarrow> string \<Rightarrow> Time \<Rightarrow> 64 word \<Rightarrow> 64 word \<Rightarrow> (Error + Event) \<times> FileSystem" where
  "Create fs nodePath value expireTime index term =
     (let nodePath = pathCleaning (slash # nodePath)
      in case hasPermOnParent fs nodePath ''w'' of
           (Some err, fs1) \<Rightarrow> (Inl err, fs1)
         | (None, fs1) \<Rightarrow>
             (case InternalGet fs1 nodePath index term of
                (Inr _, fs2) \<Rightarrow> (Inl (Error EcodeNodeExist nodePath), fs2)
              | (Inl err, fs2) \<Rightarrow>
                  (case err of
                     Panic \<Rightarrow> (Inl err, fs2)
                   | Error code cause \<Rightarrow>
                       if code = EcodeNotDir then (Inl err, fs2)
                       else InternalCreate fs2 nodePath value expireTime index term)))"

definition CreateDir ::
  "FileSystem \<Rightarrow> string \<Rightarrow> Time \<Rightarrow> 64 word \<Rightarrow> 64 word \<Rightarrow> (Error + Event) \<times> FileSystem" where
  "CreateDir fs nodePath expireTime index term = Create fs nodePath [] expireTime index term"

text \<open>
  \<open>Update\<close>.  The timer is stopped when the node has an expiration and the new one
  is not \<open>Permanent\<close>; a new expiration that is not \<open>Permanent\<close> is recorded and armed.
\<close>

definition Update ::
  "FileSystem \<Rightarrow> string \<Rightarrow> string \<Rightarrow> Time \<Rightarrow> 64 word \<Rightarrow> 64 word \<Rightarrow> (Error + Event) \<times> FileSystem" where
  "Update fs nodePath value expireTime index term =
     (let nodePath = pathCleaning (slash # nodePath)
      in case InternalGet fs nodePath index term of
           (Inl err, fs1) \<Rightarrow> (Inl err, fs1)
         | (Inr (loc, n), fs1) \<Rightarrow>
             (case hasPerm fs1 n ''w'' False of
                (Some err, fs2) \<Rightarrow> (Inl err, fs2)
              | (None, fs2) \<Rightarrow>
                  (let e = newEvent ActionUpdate nodePath (Index fs2) (Term fs2)
                   in if IsDir (info n) \<and> value \<noteq> [] then (Inl (Error EcodeNotFile nodePath), fs2)
                      else
                        (let e = (if IsDir (info n) then e
                                  else (let e = e\<lparr>PrevValue := NodeValue (info n)\<rparr>
                                        in if value \<noteq> [] then e\<lparr>Value := value\<rparr> else e));
                             fs3 = (if IsDir (info n) then fs2
                                    else fs2\<lparr>Root := modifyAt loc (Write value index term) (Root fs2)\<rparr>);
                             fs4 = (if ExpireTime (info n) \<noteq> Permanent \<and> expireTime \<noteq> Permanent
                                    then fs3\<lparr>Root := modifyAt loc stopExpire (Root fs3)\<rparr>
                                    else fs3)
                         in if expireTime \<noteq> Permanent then
                              (let fs5 = fs4\<lparr>Root :=
                                     modifyAt loc (armExpire \<circ> mapInfo (\<lambda>a. a\<lparr>ExpireTime := expireTime\<rparr>))
                                       (Root fs4)\<rparr>;
                                   e = e\<lparr>Expiration := Some expireTime\<rparr>
                               in (Inr e, notify e fs5))
                            else (Inr e, notify e fs4)))))"

text \<open>
  \<open>TestAndSet\<close>.  The cause of a failed test is
  \<open>fmt.Sprintf("[%v/%v] [%v/%v]", prevValue, f.Value, prevIndex, f.ModifiedIndex)\<close>.
\<close>

definition testCause :: "string \<Rightarrow> string \<Rightarrow> 64 word \<Rightarrow> 64 word \<Rightarrow> string" where
  "testCause prevValue value prevIndex modifiedIndex =
     ''['' @ prevValue @ ''/'' @ value @ ''] ['' @ showNat (unat prevIndex) @ ''/''
       @ showNat (unat modifiedIndex) @ '']''"

definition TestAndSet ::
  "FileSystem \<Rightarrow> string \<Rightarrow> string \<Rightarrow> 64 word \<Rightarrow> string \<Rightarrow> Time \<Rightarrow> 64 word \<Rightarrow> 64 word
     \<Rightarrow> (Error + Event) \<times> FileSystem" where
  "TestAndSet fs nodePath prevValue prevIndex value expireTime index term =
     (let nodePath = pathCleaning (slash # nodePath)
      in case InternalGet fs nodePath index term of
           (Inl err, fs1) \<Rightarrow> (Inl err, fs1)
         | (Inr (loc, f), fs1) \<Rightarrow>
             (case hasPerm fs1 f ''rw'' False of
                (Some err, fs2) \<Rightarrow> (Inl err, fs2)
              | (None, fs2) \<Rightarrow>
                  if IsDir (info f) then (Inl (Error EcodeNotFile nodePath), fs2)
                  else if NodeValue (info f) = prevValue \<or> ModifiedIndex (info f) = prevIndex then
                    (let e = newEvent ActionTestAndSet nodePath index term;
                         e = e\<lparr>PrevValue := NodeValue (info f), Value := value\<rparr>;
                         fs3 = fs2\<lparr>Root := modifyAt loc (Write value index term) (Root fs2)\<rparr>
                     in (Inr e, notify e fs3))
                  else
                    (Inl (Error EcodeTestFailed
                            (testCause prevValue (NodeValue (info f)) prevIndex
                               (ModifiedIndex (info f)))),
                     fs2)))"

text \<open>
  Modelled from the spec: \<open>Node.Remove\<close>.  The node is detached from its parent with
  all its descendants (and their timers); the callback is run for every node removed,
  in post-order.  The root is never deleted, and a directory is only removed by a
  recursive call (the spec names the codes \<open>ENotDir\<close> and \<open>EDirNotEmpty\<close>).
\<close>

fun removedPaths :: "Node \<Rightarrow> string list" where
  "removedPaths (Node a children) =
     concat (map (\<lambda>(name, child). removedPaths child) children) @ [Path a]"

definition Remove ::
  "FileSystem \<Rightarrow> ptr \<times> Node \<Rightarrow> bool \<Rightarrow> (string \<Rightarrow> FileSystem \<Rightarrow> FileSystem)
     \<Rightarrow> Error option \<times> FileSystem" where
  "Remove fs target recursive callback =
     (case target of (loc, n) \<Rightarrow>
        if IsDir (info n) \<and> \<not> recursive then
          (Some (Error (if Children n = [] then EcodeNotDir else EcodeDirNotEmpty) (Path (info n))), fs)
        else if loc = [] then (Some (Error EcodeDirNotEmpty (Path (info n))), fs)
        else
          (None,
           fold callback (removedPaths n)
             (fs\<lparr>Root := modifyAt (butlast loc)
                   (\<lambda>p. Node (info p) (AList.delete (last loc) (Children p))) (Root fs)\<rparr>)))"

definition Delete ::
  "FileSystem \<Rightarrow> string \<Rightarrow> bool \<Rightarrow> 64 word \<Rightarrow> 64 word \<Rightarrow> (Error + Event) \<times> FileSystem" where
  "Delete fs nodePath recursive index term =
     (let nodePath = pathCleaning (slash # nodePath)
      in case InternalGet fs nodePath index term of
           (Inl err, fs1) \<Rightarrow> (Inl err, fs1)
         | (Inr (loc, n), fs1) \<Rightarrow>
             (case hasPermOnParent fs1 nodePath ''w'' of
                (Some err, fs2) \<Rightarrow> (Inl err, fs2)
              | (None, fs2) \<Rightarrow>
                  (case (if recursive then hasPerm fs2 n ''w'' recursive else (None, fs2)) of
                     (Some err, fs3) \<Rightarrow> (Inl err, fs3)
                   | (None, fs3) \<Rightarrow>
                       (let e = newEvent ActionDelete nodePath index term;
                            e = (if IsDir (info n) then e\<lparr>Dir := True\<rparr>
                                 else e\<lparr>PrevValue := NodeValue (info n)\<rparr>)
                        in case Remove fs3 (loc, n) recursive (notifyWithPath e) of
                             (Some err, fs4) \<Rightarrow> (Inl err, fs4)
                           | (None, fs4) \<Rightarrow> (Inr e, notify e fs4)))))"

text \<open>
  \<open>New\<close>: the root directory with the ACL \<open>admin_aclname\<close>, which grants \<open>r\<close>, \<open>w\<close>
  and \<open>c\<close> to the user \<open>admin\<close>.
\<close>

definition emptyFs :: FileSystem where
  "emptyFs = \<lparr>Root = newDir ''/'' 0 0 [] Permanent, Index = 0, Term = 0, Notified = []\<rparr>"

definition New :: "FileSystem option" where
  "New =
     (let fs = emptyFs\<lparr>Root := mapInfo (\<lambda>a. a\<lparr>ACL := ''admin_aclname''\<rparr>) (Root emptyFs)\<rparr>;
          user = ''admin''
      in case InternalCreate fs (''/ACL/admin_aclname/r/'' @ user) ''1'' Permanent 1 1 of
           (Inl err, fs1) \<Rightarrow> None
         | (Inr _, fs1) \<Rightarrow>
             (case InternalCreate fs1 (''/ACL/admin_aclname/w/'' @ user) ''1'' Permanent 1 1 of
                (Inl err, fs2) \<Rightarrow> None
              | (Inr _, fs2) \<Rightarrow>
                  (case InternalCreate fs2 (''/ACL/admin_aclname/c/'' @ user) ''1'' Permanent 1 1 of
                     (Inl err, fs3) \<Rightarrow> None
                   | (Inr _, fs3) \<Rightarrow> Some fs3)))"

section \<open>Example states and the conditions of the specification\<close>

text \<open>The file system made by \<open>New\<close>, and the same after \<open>Create("/k", "v1", Permanent, 1, 1)\<close>.\<close>

definition fsNew :: FileSystem where
  "fsNew = (case New of Some fs \<Rightarrow> fs | None \<Rightarrow> emptyFs)"

definition fsK :: FileSystem where
  "fsK = snd (Create fsNew ''/k'' ''v1'' Permanent 1 1)"

definition nodeK :: Node where
  "nodeK = newFile ''/k'' ''v1'' 1 1 ''admin_aclname'' Permanent"

text \<open>
  The match condition of CompareAndSwap in the words of the specification: an empty
  \<open>prev_value\<close> and a zero \<open>prev_index\<close> are don't-care, and what is supplied must
  match.
\<close>

definition specMatch :: "string \<Rightarrow> 64 word \<Rightarrow> Node \<Rightarrow> bool" where
  "specMatch prevValue prevIndex f =
     ((prevValue = [] \<or> NodeValue (info f) = prevValue)
      \<and> (prevIndex = 0 \<or> ModifiedIndex (info f) = prevIndex))"

text \<open>
  Sequences of applied operations: an operation with the \<open>(index, term)\<close> pair the
  replication layer supplies for it, the state after one operation, and the state
  after a sequence of them.
\<close>

datatype Operation =
    OpGet string bool bool
  | OpCreate string string Time
  | OpUpdate string string Time
  | OpTestAndSet string string "64 word" string Time
  | OpDelete string bool

fun runOp ::
  "FileSystem \<Rightarrow> Operation \<times> 64 word \<times> 64 word \<Rightarrow> (Error + Event) \<times> FileSystem" where
  "runOp fs (OpGet nodePath recursive sorting, index, term) =
     Get fs nodePath recursive sorting index term"
| "runOp fs (OpCreate nodePath value expireTime, index, term) =
     Create fs nodePath value expireTime index term"
| "runOp fs (OpUpdate nodePath value expireTime, index, term) =
     Update fs nodePath value expireTime index term"
| "runOp fs (OpTestAndSet nodePath prevValue prevIndex value expireTime, index, term) =
     TestAndSet fs nodePath prevValue prevIndex value expireTime index term"
| "runOp fs (OpDelete nodePath recursive, index, term) =
     Delete fs nodePath recursive index term"

definition applyOp :: "FileSystem \<Rightarrow> Operation \<times> 64 word \<times> 64 word \<Rightarrow> FileSystem" where
  "applyOp fs x = snd (runOp fs x)"

fun applyOps :: "FileSystem \<Rightarrow> (Operation \<times> 64 word \<times> 64 word) list \<Rightarrow> FileSystem" where
  "applyOps fs [] = fs"
| "applyOps fs (x # xs) = applyOps (applyOp fs x) xs"

text \<open>The pairs \<open>qs\<close> never decrease (in either component), starting from \<open>p\<close>.\<close>

fun nondecreasing :: "64 word \<times> 64 word \<Rightarrow> (64 word \<times> 64 word) list \<Rightarrow> bool" where
  "nondecreasing p [] = True"
| "nondecreasing p (q # qs) = (fst p \<le> fst q \<and> snd p \<le> snd q \<and> nondecreasing q qs)"

text \<open>
  The file system after \<open>Create("/t", "v", expire, 1, 1)\<close> with an expiration, and
  the node it creates.
\<close>

definition fsT :: FileSystem where
  "fsT = snd (Create fsNew ''/t'' ''v'' (At 100) 1 1)"

definition nodeT :: Node where
  "nodeT = armExpire (newFile ''/t'' ''v'' 1 1 ''admin_aclname'' (At 100))"

text \<open>
  The expiration of a node with the number of its live timers; a node with these two
  replaced; and the invariant of the specification: a node with an expiration has
  exactly one live timer, a permanent node has none.
\<close>

definition expiry :: "Node \<Rightarrow> Time \<times> nat" where
  "expiry n = (ExpireTime (info n), Expirers (info n))"

definition withExpiry :: "Time \<times> nat \<Rightarrow> Node \<Rightarrow> Node" where
  "withExpiry x = mapInfo (\<lambda>a. a\<lparr>ExpireTime := fst x, Expirers := snd x\<rparr>)"

definition timerInv :: "Node \<Rightarrow> bool" where
  "timerInv n = (Expirers (info n) = (if ExpireTime (info n) = Permanent then 0 else 1))"

text \<open>
  An operation requested by an external caller.  No operation of the store has a
  parameter for the identity of its caller, and \<open>getUser\<close> reads nothing, so the
  identity does not reach the store.
\<close>

definition callAs ::
  "string \<Rightarrow> FileSystem \<Rightarrow> Operation \<times> 64 word \<times> 64 word \<Rightarrow> (Error + Event) \<times> FileSystem" where
  "callAs caller fs x = runOp fs x"

text \<open>
  The states of the test \<open>TestDeletePerm\<close>: the ACL \<open>acl_name\<close> grants only \<open>r\<close>,
  the file \<open>/sample/gao\<close> is created, and the test then assigns \<open>acl_name\<close> to the
  field \<open>ACL\<close> of the directory \<open>/sample\<close>.
\<close>

definition setACL :: "FileSystem \<Rightarrow> string \<Rightarrow> string \<Rightarrow> FileSystem" where
  "setACL fs nodePath acl =
     (case InternalGet fs nodePath 1 1 of
        (Inr (loc, n), fs1) \<Rightarrow> fs1\<lparr>Root := modifyAt loc (mapInfo (\<lambda>a. a\<lparr>ACL := acl\<rparr>)) (Root fs1)\<rparr>
      | (Inl err, fs1) \<Rightarrow> fs1)"

definition fsA :: FileSystem where
  "fsA = snd (Create fsNew ''/ACL/acl_name/r/admin'' ''1'' Permanent 1 1)"

definition fsB :: FileSystem where
  "fsB = snd (Create fsA ''/sample/gao'' ''zhengao'' Permanent 1 1)"

definition fsC :: FileSystem where
  "fsC = setACL fsB ''/sample/'' ''acl_name''"

text \<open>
  The file system \<open>fsK\<close> after the grant of \<open>w\<close> to \<open>admin\<close> has been deleted:
  \<open>Delete("/ACL/admin_aclname/w/admin", false, 2, 1)\<close>.
\<close>

definition fsNoW :: FileSystem where
  "fsNoW = snd (Delete fsK ''/ACL/admin_aclname/w/admin'' False 2 1)"

section \<open>Auxiliary notions of the proofs\<close>

text \<open>
  The elements of a cleaned path are not empty and contain no slash;
  \<open>cleanComps nodePath\<close> are the elements of \<open>path.Clean("/" + nodePath)\<close>.
\<close>

definition goodElems :: "string list \<Rightarrow> bool" where
  "goodElems cs = (\<forall>c \<in> set cs. c \<noteq> [] \<and> slash \<notin> set c)"

definition cleanComps :: "string \<Rightarrow> string list" where
  "cleanComps nodePath = cleanElems True [] ([] # Split nodePath)"

text \<open>
  \<open>fileOnPath cs n\<close>: walking the names \<open>cs\<close> down from \<open>n\<close> meets a file that still
  has a name to look up under it (an intermediate segment exists but is a file).
\<close>

fun fileOnPath :: "string list \<Rightarrow> Node \<Rightarrow> bool" where
  "fileOnPath [] n = False"
| "fileOnPath (c # cs) n =
     (if IsDir (info n)
      then (case map_of (Children n) c of None \<Rightarrow> False | Some child \<Rightarrow> fileOnPath cs child)
      else True)"

text \<open>
  The tree below \<open>n\<close> after the walk of \<open>checkDir\<close> along the names \<open>ds\<close>, and the
  directory the walk ends in.
\<close>

fun mkdirs :: "64 word \<Rightarrow> 64 word \<Rightarrow> string list \<Rightarrow> Node \<Rightarrow> Node" where
  "mkdirs i t [] n = n"
| "mkdirs i t (c # cs) n =
     (case map_of (Children n) c of
        Some child \<Rightarrow> Node (info n) (AList.map_entry c (mkdirs i t cs) (Children n))
      | None \<Rightarrow>
          Node (info n)
            (Children n @ [(c, mkdirs i t cs (newDir (Join [Path (info n), c]) i t (ACL (info n)) Permanent))]))"

fun lastDir :: "64 word \<Rightarrow> 64 word \<Rightarrow> string list \<Rightarrow> Node \<Rightarrow> Node" where
  "lastDir i t [] n = n"
| "lastDir i t (c # cs) n =
     (case map_of (Children n) c of
        Some child \<Rightarrow> lastDir i t cs child
      | None \<Rightarrow> lastDir i t cs (newDir (Join [Path (info n), c]) i t (ACL (info n)) Permanent))"

text \<open>
  \<open>createdDir index term cs r k\<close>: in the tree \<open>r\<close> the node at the first \<open>k\<close> names
  of \<open>cs\<close> is a permanent directory without timer, created at \<open>(index, term)\<close>, and
  its ACL is the ACL of its parent.
\<close>

definition createdDir :: "64 word \<Rightarrow> 64 word \<Rightarrow> string list \<Rightarrow> Node \<Rightarrow> nat \<Rightarrow> bool" where
  "createdDir index term cs r k =
     (case (lookup (take k cs) r, lookup (take (k - 1) cs) r) of
        (Some m, Some par) \<Rightarrow>
          IsDir (info m) \<and> ExpireTime (info m) = Permanent \<and> Expirers (info m) = 0
          \<and> CreateIndex (info m) = index \<and> CreateTerm (info m) = term
          \<and> ACL (info m) = ACL (info par)
      | _ \<Rightarrow> False)"

section \<open>Frame lemmas: reads leave the file system alone\<close>

lemma lookup_append:
  "lookup (xs @ ys) n = (case lookup xs n of None \<Rightarrow> None | Some m \<Rightarrow> lookup ys m)"
  by (induction xs arbitrary: n) (auto split: option.splits)

lemma lookup_snoc:
  "lookup xs r = Some m \<Longrightarrow> lookup (xs @ [c]) r = map_of (Children m) c"
  by (simp add: lookup_append split: option.splits)

lemma lookup_modifyAt_same:
  "lookup loc r = Some n \<Longrightarrow> lookup loc (modifyAt loc f r) = Some (f n)"
proof (induction loc arbitrary: r)
  case Nil
  then show ?case by simp
next
  case (Cons c cs)
  then show ?case
    by (auto simp: map_of_map_entry split: option.splits)
qed

lemma getWalkFunc_step:
  "getWalkFunc fs (loc, p) name =
     (if \<not> IsDir (info p) then (Inl (Error EcodeNotDir (Path (info p))), fs)
      else (case map_of (Children p) name of
              Some child \<Rightarrow> (Inr (loc @ [name], child), fs)
            | None \<Rightarrow> (Inl (Error EcodeKeyNotFound (Join [Path (info p), name])), fs)))"
  by (simp add: getWalkFunc_def)

lemma walkLoop_get_state: "snd (walkLoop getWalkFunc cs fs cur) = fs"
proof (induction cs arbitrary: cur)
  case Nil
  then show ?case by simp
next
  case (Cons c cs)
  obtain loc p where cur: "cur = (loc, p)" by (cases cur)
  show ?case
    using Cons.IH by (simp add: cur getWalkFunc_step split: option.splits)
qed

lemma InternalGet_state:
  "snd (InternalGet fs nodePath index term) = fs\<lparr>Index := index, Term := term\<rparr>"
  by (simp add: InternalGet_def walk_def walkLoop_get_state)

lemma InternalGet_eq:
  "InternalGet fs nodePath index term = (r, fs') \<Longrightarrow> fs' = fs\<lparr>Index := index, Term := term\<rparr>"
  using InternalGet_state [of fs nodePath index "term"] by simp

lemma walkLoop_get_lookup:
  "walkLoop getWalkFunc cs fs (loc0, n0) = (Inr (loc, n), fs') \<Longrightarrow> lookup loc0 r = Some n0
     \<Longrightarrow> lookup loc r = Some n"
proof (induction cs arbitrary: loc0 n0)
  case Nil
  then show ?case by simp
next
  case (Cons c cs)
  show ?case
  proof (cases "c = []")
    case True
    with Cons.prems show ?thesis by simp
  next
    case False
    with Cons.prems obtain child where
      ch: "map_of (Children n0) c = Some child" and
      rec: "walkLoop getWalkFunc cs fs (loc0 @ [c], child) = (Inr (loc, n), fs')"
      by (auto simp: getWalkFunc_step split: if_splits option.splits)
    have "lookup (loc0 @ [c]) r = Some child"
      using Cons.prems(2) ch by (simp add: lookup_snoc)
    with Cons.IH rec show ?thesis by blast
  qed
qed

lemma InternalGet_lookup:
  "fst (InternalGet fs nodePath index term) = Inr (loc, n) \<Longrightarrow> lookup loc (Root fs) = Some n"
proof -
  assume a: "fst (InternalGet fs nodePath index term) = Inr (loc, n)"
  obtain fs' where "InternalGet fs nodePath index term = (Inr (loc, n), fs')"
    using a by (cases "InternalGet fs nodePath index term") simp
  then show ?thesis
    unfolding InternalGet_def walk_def
    using walkLoop_get_lookup [of _ _ "[]" _ loc n "fs'" "Root fs"] by simp
qed

lemma checkPermLoop_state: "snd (checkPermLoop fs aclName perm user cs) = fs"
proof (induction cs arbitrary: fs)
  case Nil
  then show ?case by simp
next
  case (Cons c cs)
  obtain r fs' where
    g: "InternalGet fs (Join [''/ACL'', aclName, [c], user]) (Index fs) (Term fs) = (r, fs')"
    by (cases "InternalGet fs (Join [''/ACL'', aclName, [c], user]) (Index fs) (Term fs)")
  then have "fs' = fs" using InternalGet_eq [OF g] by simp
  with g Cons.IH show ?case by (cases r) simp_all
qed

lemma checkPerm_state: "snd (checkPerm fs aclName perm) = fs"
  by (simp add: checkPerm_def checkPermLoop_state)

lemma checkPerm_eq: "checkPerm fs aclName perm = (r, fs') \<Longrightarrow> fs' = fs"
  using checkPerm_state [of fs aclName perm] by simp

lemma hasPerm_state_both:
  "snd (hasPerm fs n perm recursive) = fs"
  "snd (hasPermChildren fs children perm recursive) = fs"
proof (induction fs n perm recursive and fs children perm recursive
    rule: hasPerm_hasPermChildren.induct)
  case (1 fs a children perm recursive)
  obtain r fs' where c: "checkPerm fs (ACL a) perm = (r, fs')"
    by (cases "checkPerm fs (ACL a) perm")
  have e: "fs' = fs" using checkPerm_eq [OF c] .
  show ?case using "1.IH" c e by (cases r) auto
next
  case (2 fs perm recursive)
  then show ?case by simp
next
  case (3 fs name child rest perm recursive)
  show ?case
  proof (cases "IsHidden child")
    case True
    with 3 show ?thesis by simp
  next
    case False
    obtain r fs' where h: "hasPerm fs child perm recursive = (r, fs')"
      by (cases "hasPerm fs child perm recursive")
    have e: "fs' = fs" using "3.IH"(2) [OF False] h by simp
    show ?thesis using "3.IH"(3) [OF False] h e False by (cases r) auto
  qed
qed

lemma hasPerm_eq: "hasPerm fs n perm recursive = (r, fs') \<Longrightarrow> fs' = fs"
  using hasPerm_state_both(1) [of fs n perm recursive] by simp

lemma hasPermOnParentLoop_state: "snd (hasPermOnParentLoop fs cur cs perm) = fs"
  by (induction cs arbitrary: cur) (auto simp: checkPerm_state split: option.splits)

lemma hasPermOnParent_state: "snd (hasPermOnParent fs nodePath perm) = fs"
  by (simp add: hasPermOnParent_def hasPermOnParentLoop_state)

lemma hasPermOnParent_eq: "hasPermOnParent fs nodePath perm = (r, fs') \<Longrightarrow> fs' = fs"
  using hasPermOnParent_state [of fs nodePath perm] by simp

lemma checkPermLoop_fst:
  "fst (checkPermLoop fs aclName perm user cs) =
     (if list_all (\<lambda>c. \<not> isl (fst (InternalGet fs (Join [''/ACL'', aclName, [c], user])
                                     (Index fs) (Term fs)))) cs
      then None else Some (Error EcodePermissionDenied perm))"
proof (induction cs)
  case Nil
  then show ?case by simp
next
  case (Cons c cs)
  obtain r fs' where
    g: "InternalGet fs (Join [''/ACL'', aclName, [c], user]) (Index fs) (Term fs) = (r, fs')"
    by (cases "InternalGet fs (Join [''/ACL'', aclName, [c], user]) (Index fs) (Term fs)")
  then have "fs' = fs" using InternalGet_eq [OF g] by simp
  with g Cons.IH show ?case by (cases r) simp_all
qed

lemma check_permLoop_fst:
  "fst (check_permLoop fs acl perm user cs) =
     (if list_all (\<lambda>c. \<not> isl (fst (InternalGet fs (Join [acl, [c], user]) (Index fs) (Term fs)))) cs
      then None else Some (Error EcodePermissionDenied perm))"
proof (induction cs)
  case Nil
  then show ?case by simp
next
  case (Cons c cs)
  obtain r fs' where
    g: "InternalGet fs (Join [acl, [c], user]) (Index fs) (Term fs) = (r, fs')"
    by (cases "InternalGet fs (Join [acl, [c], user]) (Index fs) (Term fs)")
  then have "fs' = fs" using InternalGet_eq [OF g] by simp
  with g Cons.IH show ?case by (cases r) simp_all
qed

section \<open>What the operations do to \<open>Index\<close> and \<open>Term\<close>\<close>

lemma Get_state:
  "snd (Get fs nodePath recursive sorting index term) = fs\<lparr>Index := index, Term := term\<rparr>"
proof -
  let ?p = "pathCleaning (slash # nodePath)"
  let ?fs1 = "fs\<lparr>Index := index, Term := term\<rparr>"
  obtain r where g: "InternalGet fs ?p index term = (r, ?fs1)"
    using InternalGet_state [of fs ?p index "term"] by (metis prod.collapse)
  show ?thesis
  proof (cases r)
    case (Inl err)
    with g show ?thesis by (simp add: Get_def)
  next
    case (Inr x)
    obtain loc n where x: "x = (loc, n)" by (cases x)
    obtain h where h: "hasPerm ?fs1 n ''r'' recursive = (h, ?fs1)"
      using hasPerm_state_both(1) [of ?fs1 n "''r''" recursive] by (metis prod.collapse)
    show ?thesis
      using g Inr x h by (cases h) (simp_all add: Get_def Let_def)
  qed
qed

lemma walkLoop_checkDir_index:
  "Index (snd (walkLoop checkDir cs fs cur)) = Index fs \<and> Term (snd (walkLoop checkDir cs fs cur)) = Term fs
   \<and> Notified (snd (walkLoop checkDir cs fs cur)) = Notified fs"
proof (induction cs arbitrary: fs cur)
  case Nil
  then show ?case by simp
next
  case (Cons c cs)
  obtain loc p where cur: "cur = (loc, p)" by (cases cur)
  show ?case
    using Cons.IH
    by (simp add: cur checkDir_def Let_def split: option.splits)
qed

lemma InternalCreate_index:
  "Index (snd (InternalCreate fs nodePath value expireTime index term)) = Index fs
   \<and> Term (snd (InternalCreate fs nodePath value expireTime index term)) = Term fs"
proof -
  let ?w = "walk fs (fst (path_Split nodePath)) checkDir"
  have i: "Index (snd ?w) = Index fs" "Term (snd ?w) = Term fs"
    using walkLoop_checkDir_index by (simp_all add: walk_def)
  obtain r fs1 where w: "?w = (r, fs1)" by (cases ?w)
  with i have j: "Index fs1 = Index fs" "Term fs1 = Term fs" by simp_all
  show ?thesis
    using w j
    by (auto simp: InternalCreate_def Let_def notify_def split: sum.splits prod.splits)
qed

lemma Create_index:
  "(Index (snd (Create fs nodePath value expireTime index term)),
    Term (snd (Create fs nodePath value expireTime index term))) =
     (if fst (hasPermOnParent fs (pathCleaning (slash # nodePath)) ''w'') = None
      then (index, term) else (Index fs, Term fs))"
proof -
  let ?p = "pathCleaning (slash # nodePath)"
  let ?fs1 = "fs\<lparr>Index := index, Term := term\<rparr>"
  obtain h where h: "hasPermOnParent fs ?p ''w'' = (h, fs)"
    using hasPermOnParent_state [of fs ?p "''w''"] by (metis prod.collapse)
  obtain r where g: "InternalGet fs ?p index term = (r, ?fs1)"
    using InternalGet_state [of fs ?p index "term"] by (metis prod.collapse)
  show ?thesis
  proof (cases h)
    case (Some err)
    with h show ?thesis by (simp add: Create_def)
  next
    case None
    show ?thesis
      using h None g InternalCreate_index [of ?fs1 ?p "value" expireTime index "term"]
      by (auto simp: Create_def Let_def split: sum.splits Error.splits)
  qed
qed

lemma Update_index:
  "Index (snd (Update fs nodePath value expireTime index term)) = index
   \<and> Term (snd (Update fs nodePath value expireTime index term)) = term"
proof -
  let ?p = "pathCleaning (slash # nodePath)"
  let ?fs1 = "fs\<lparr>Index := index, Term := term\<rparr>"
  obtain r where g: "InternalGet fs ?p index term = (r, ?fs1)"
    using InternalGet_state [of fs ?p index "term"] by (metis prod.collapse)
  show ?thesis
  proof (cases r)
    case (Inl err)
    with g show ?thesis by (simp add: Update_def)
  next
    case (Inr x)
    obtain loc n where x: "x = (loc, n)" by (cases x)
    obtain h where h: "hasPerm ?fs1 n ''w'' False = (h, ?fs1)"
      using hasPerm_state_both(1) [of ?fs1 n "''w''" False] by (metis prod.collapse)
    show ?thesis
      using g Inr x h by (cases h) (simp_all add: Update_def Let_def notify_def)
  qed
qed

lemma TestAndSet_index:
  "Index (snd (TestAndSet fs nodePath prevValue prevIndex value expireTime index term)) = index
   \<and> Term (snd (TestAndSet fs nodePath prevValue prevIndex value expireTime index term)) = term"
proof -
  let ?p = "pathCleaning (slash # nodePath)"
  let ?fs1 = "fs\<lparr>Index := index, Term := term\<rparr>"
  obtain r where g: "InternalGet fs ?p index term = (r, ?fs1)"
    using InternalGet_state [of fs ?p index "term"] by (metis prod.collapse)
  show ?thesis
  proof (cases r)
    case (Inl err)
    with g show ?thesis by (simp add: TestAndSet_def)
  next
    case (Inr x)
    obtain loc n where x: "x = (loc, n)" by (cases x)
    obtain h where h: "hasPerm ?fs1 n ''rw'' False = (h, ?fs1)"
      using hasPerm_state_both(1) [of ?fs1 n "''rw''" False] by (metis prod.collapse)
    show ?thesis
      using g Inr x h by (cases h) (simp_all add: TestAndSet_def Let_def notify_def)
  qed
qed

lemma fold_notifyWithPath_index:
  "Index (fold (notifyWithPath e) ps fs) = Index fs \<and> Term (fold (notifyWithPath e) ps fs) = Term fs
   \<and> Root (fold (notifyWithPath e) ps fs) = Root fs"
  by (induction ps arbitrary: fs) (simp_all add: notifyWithPath_def)

lemma Remove_index:
  "Index (snd (Remove fs target recursive (notifyWithPath e))) = Index fs
   \<and> Term (snd (Remove fs target recursive (notifyWithPath e))) = Term fs"
  by (cases target) (simp add: Remove_def fold_notifyWithPath_index)

lemma Delete_index:
  "Index (snd (Delete fs nodePath recursive index term)) = index
   \<and> Term (snd (Delete fs nodePath recursive index term)) = term"
proof -
  let ?p = "pathCleaning (slash # nodePath)"
  let ?fs1 = "fs\<lparr>Index := index, Term := term\<rparr>"
  obtain r where g: "InternalGet fs ?p index term = (r, ?fs1)"
    using InternalGet_state [of fs ?p index "term"] by (metis prod.collapse)
  show ?thesis
  proof (cases r)
    case (Inl err)
    with g show ?thesis by (simp add: Delete_def)
  next
    case (Inr x)
    obtain loc n where x: "x = (loc, n)" by (cases x)
    obtain hp where hp: "hasPermOnParent ?fs1 ?p ''w'' = (hp, ?fs1)"
      using hasPermOnParent_state [of ?fs1 ?p "''w''"] by (metis prod.collapse)
    obtain h where h: "hasPerm ?fs1 n ''w'' recursive = (h, ?fs1)"
      using hasPerm_state_both(1) [of ?fs1 n "''w''" recursive] by (metis prod.collapse)
    let ?e = "if IsDir (info n) then (newEvent ActionDelete ?p index term)\<lparr>Dir := True\<rparr>
              else (newEvent ActionDelete ?p index term)\<lparr>PrevValue := NodeValue (info n)\<rparr>"
    obtain rr fs4 where rm: "Remove ?fs1 (loc, n) recursive (notifyWithPath ?e) = (rr, fs4)"
      by (cases "Remove ?fs1 (loc, n) recursive (notifyWithPath ?e)")
    have i4: "Index fs4 = index" "Term fs4 = term"
      using Remove_index [of ?fs1 "(loc, n)" recursive ?e] rm by simp_all
    show ?thesis
      using g Inr x h hp rm i4
      by (cases hp; cases h; cases rr; cases recursive) (simp_all add: Delete_def Let_def notify_def)
  qed
qed

section \<open>Cleaned paths\<close>

lemma Split_nonempty: "Split s \<noteq> []"
  by (induction s) (auto split: list.splits)

lemma Split_append_slash: "Split (x @ slash # y) = Split x @ Split y"
proof (induction x)
  case Nil
  then show ?case by simp
next
  case (Cons c x)
  then show ?case
    using Split_nonempty [of x] by (auto split: list.splits)
qed

lemma Split_slashfree: "slash \<notin> set s \<Longrightarrow> Split s = [s]"
  by (induction s) auto

lemma Split_pieces: "c \<in> set (Split s) \<Longrightarrow> slash \<notin> set c"
proof (induction s arbitrary: c)
  case Nil
  then show ?case by simp
next
  case (Cons a s)
  then show ?case
    by (cases "Split s") (auto split: if_splits)
qed

lemma goodElems_butlast: "goodElems cs \<Longrightarrow> goodElems (butlast cs)"
  by (auto simp: goodElems_def dest: in_set_butlastD)

lemma cleanElems_good:
  "goodElems out \<Longrightarrow> (\<forall>c \<in> set cs. slash \<notin> set c) \<Longrightarrow> goodElems (cleanElems rooted out cs)"
proof (induction cs arbitrary: out)
  case Nil
  then show ?case by simp
next
  case (Cons c cs)
  have b: "goodElems (butlast out)" using Cons.prems(1) by (rule goodElems_butlast)
  have a: "c \<noteq> [] \<Longrightarrow> goodElems (out @ [c])"
    using Cons.prems by (auto simp: goodElems_def)
  show ?case
    using Cons.IH [of out] Cons.IH [of "butlast out"] Cons.IH [of "out @ [c]"] Cons.prems a b
    by auto
qed

lemma joinSlash_snoc:
  "cs \<noteq> [] \<Longrightarrow> joinSlash (cs @ [c]) = joinSlash cs @ slash # c"
  by (induction cs rule: joinSlash.induct) auto

lemma Split_joinSlash:
  "cs \<noteq> [] \<Longrightarrow> goodElems cs \<Longrightarrow> Split (joinSlash cs) = cs"
proof (induction cs rule: joinSlash.induct)
  case 1
  then show ?case by simp
next
  case (2 x)
  then show ?case by (simp add: goodElems_def Split_slashfree)
next
  case (3 x y zs)
  then show ?case
    by (simp add: goodElems_def Split_append_slash Split_slashfree)
qed

lemma joinSlash_last:
  "cs \<noteq> [] \<Longrightarrow> goodElems cs \<Longrightarrow> joinSlash cs \<noteq> [] \<and> last (joinSlash cs) \<noteq> slash"
proof (induction cs rule: joinSlash.induct)
  case 1
  then show ?case by simp
next
  case (2 x)
  then have "x \<noteq> []" "slash \<notin> set x" by (auto simp: goodElems_def)
  then have "last x \<noteq> slash" by (metis last_in_set)
  with \<open>x \<noteq> []\<close> show ?case by simp
next
  case (3 x y zs)
  then show ?case by (auto simp: goodElems_def)
qed

lemma cleanComps_good: "goodElems (cleanComps nodePath)"
  unfolding cleanComps_def
  by (rule cleanElems_good) (auto simp: goodElems_def dest: Split_pieces)

lemma pathCleaning_form:
  "pathCleaning (slash # nodePath) =
     (if cleanComps nodePath = [] then [] else slash # joinSlash (cleanComps nodePath))"
  using joinSlash_last [OF _ cleanComps_good, of nodePath]
  by (auto simp: pathCleaning_def Clean_def Let_def cleanComps_def)

lemma Split_pathCleaning:
  "drop 1 (Split (pathCleaning (slash # nodePath))) = cleanComps nodePath"
  using Split_joinSlash [OF _ cleanComps_good, of nodePath]
  by (auto simp: pathCleaning_form)

lemma path_Split_slash:
  assumes "slash \<notin> set f"
  shows "path_Split (pre @ slash # f) = (pre @ [slash], f)"
proof -
  have "takeWhile (\<lambda>c. c \<noteq> slash) (rev f @ slash # rev pre) =
      rev f @ takeWhile (\<lambda>c. c \<noteq> slash) (slash # rev pre)"
    by (rule takeWhile_append2) (use assms in auto)
  then have "takeWhile (\<lambda>c. c \<noteq> slash) (rev f @ slash # rev pre) = rev f"
    by simp
  then show ?thesis
    by (simp add: path_Split_def Let_def)
qed

lemma pathCleaning_split:
  assumes "cleanComps nodePath \<noteq> []"
  shows "snd (path_Split (pathCleaning (slash # nodePath))) = last (cleanComps nodePath)"
    and "drop 1 (Split (fst (path_Split (pathCleaning (slash # nodePath))))) =
           butlast (cleanComps nodePath) @ [[]]"
proof -
  let ?cs = "cleanComps nodePath"
  let ?pre = "if butlast ?cs = [] then [] else slash # joinSlash (butlast ?cs)"
  have g: "goodElems ?cs" by (rule cleanComps_good)
  have gb: "goodElems (butlast ?cs)" using g by (rule goodElems_butlast)
  have l: "slash \<notin> set (last ?cs)" using g assms by (auto simp: goodElems_def)
  have "joinSlash ?cs = joinSlash (butlast ?cs @ [last ?cs])" using assms by simp
  then have "slash # joinSlash ?cs = ?pre @ slash # last ?cs"
    by (cases "butlast ?cs = []") (simp_all add: joinSlash_snoc del: append_butlast_last_id)
  then have p: "pathCleaning (slash # nodePath) = ?pre @ slash # last ?cs"
    using assms by (simp add: pathCleaning_form)
  have ps: "path_Split (pathCleaning (slash # nodePath)) = (?pre @ [slash], last ?cs)"
    unfolding p using l by (rule path_Split_slash)
  show "snd (path_Split (pathCleaning (slash # nodePath))) = last ?cs"
    by (simp add: ps)
  have "Split (?pre @ [slash]) = Split ?pre @ [[]]"
    using Split_append_slash [of ?pre "[]"] by simp
  moreover have "drop 1 (Split ?pre) = butlast ?cs"
    using Split_joinSlash [OF _ gb] by auto
  moreover have "Split ?pre \<noteq> []" by (rule Split_nonempty)
  ultimately show "drop 1 (Split (fst (path_Split (pathCleaning (slash # nodePath))))) =
           butlast ?cs @ [[]]"
    by (simp add: ps)
qed

section \<open>Create: the walk that makes directories\<close>

lemma checkDir_step:
  "checkDir fs (loc, p) dirName =
     (case map_of (Children p) dirName of
        Some subDir \<Rightarrow> (Inr (loc @ [dirName], subDir), fs)
      | None \<Rightarrow>
          if \<not> IsDir (info p) then (Inl Panic, fs)
          else (let n = newDir (Join [Path (info p), dirName]) (Index fs) (Term fs) (ACL (info p)) Permanent
                in (Inr (loc @ [dirName], n),
                    fs\<lparr>Root := modifyAt loc (\<lambda>q. Node (info q) (Children q @ [(dirName, n)])) (Root fs)\<rparr>)))"
  by (simp add: checkDir_def)

lemma map_of_snoc_new: "map_of xs k = None \<Longrightarrow> map_of (xs @ [(k, v)]) k = Some v"
  by (simp add: map_add_def)

lemma walkLoop_checkDir_lookup:
  "walkLoop checkDir cs fs (loc0, n0) = (Inr (loc, d), fs1) \<Longrightarrow> lookup loc0 (Root fs) = Some n0
     \<Longrightarrow> lookup loc (Root fs1) = Some d \<and> loc = loc0 @ takeWhile (\<lambda>c. c \<noteq> []) cs"
proof (induction cs arbitrary: fs loc0 n0)
  case Nil
  then show ?case by simp
next
  case (Cons c cs)
  show ?case
  proof (cases "c = []")
    case True
    with Cons.prems show ?thesis by simp
  next
    case False
    show ?thesis
    proof (cases "map_of (Children n0) c")
      case (Some sub)
      have l: "lookup (loc0 @ [c]) (Root fs) = Some sub"
        using Cons.prems(2) Some by (simp add: lookup_snoc)
      have w: "walkLoop checkDir cs fs (loc0 @ [c], sub) = (Inr (loc, d), fs1)"
        using Cons.prems(1) False Some by (simp add: checkDir_step)
      from Cons.IH [OF w l] False show ?thesis by auto
    next
      case None
      let ?n = "newDir (Join [Path (info n0), c]) (Index fs) (Term fs) (ACL (info n0)) Permanent"
      let ?fs = "fs\<lparr>Root := modifyAt loc0 (\<lambda>q. Node (info q) (Children q @ [(c, ?n)])) (Root fs)\<rparr>"
      have d: "IsDir (info n0)"
        using Cons.prems(1) False None by (auto simp: checkDir_step split: if_splits)
      have w: "walkLoop checkDir cs ?fs (loc0 @ [c], ?n) = (Inr (loc, d), fs1)"
        using Cons.prems(1) False None d by (simp add: checkDir_step Let_def)
      have "lookup loc0 (Root ?fs) = Some (Node (info n0) (Children n0 @ [(c, ?n)]))"
        using Cons.prems(2) by (simp add: lookup_modifyAt_same)
      then have l: "lookup (loc0 @ [c]) (Root ?fs) = Some ?n"
        using None by (simp add: lookup_snoc map_of_snoc_new del: map_of_append)
      from Cons.IH [OF w l] False show ?thesis by auto
    qed
  qed
qed

lemma takeWhile_good: "[] \<notin> set ds \<Longrightarrow> takeWhile (\<lambda>c. c \<noteq> []) (ds @ [[]]) = ds"
  by (induction ds) auto

lemma InternalCreate_success:
  assumes ok: "fst (InternalCreate fs p value expireTime index term) = Inr e"
    and dir: "drop 1 (Split (fst (path_Split p))) = ds @ [[]]" "[] \<notin> set ds"
  shows "e = (newEvent ActionCreate p (Index fs) (Term fs))
               \<lparr>Value := value, Dir := (value = []),
                Expiration := (if expireTime \<noteq> Permanent then Some expireTime else None)\<rparr>"
    and "\<exists>acl. lookup (ds @ [snd (path_Split p)]) (Root (snd (InternalCreate fs p value expireTime index term))) =
           Some ((if expireTime \<noteq> Permanent then armExpire else (\<lambda>n. n))
                   (if value \<noteq> [] then newFile p value (Index fs) (Term fs) acl expireTime
                    else newDir p (Index fs) (Term fs) acl expireTime))"
proof -
  let ?name = "snd (path_Split p)"
  let ?w = "walkLoop checkDir (ds @ [[]]) fs ([], Root fs)"
  have wd: "walk fs (fst (path_Split p)) checkDir = ?w"
    using dir(1) by (simp add: walk_def)
  obtain r fs1 where w: "?w = (r, fs1)" by (cases ?w)
  have it: "Index fs1 = Index fs" "Term fs1 = Term fs"
    using walkLoop_checkDir_index [of "ds @ [[]]" fs "([], Root fs)"] w by simp_all
  from ok wd w obtain loc d where r: "r = Inr (loc, d)"
    by (cases r) (auto simp: InternalCreate_def Let_def)
  have ld: "lookup loc (Root fs1) = Some d" and loc: "loc = ds"
    using walkLoop_checkDir_lookup [of "ds @ [[]]" fs "[]" "Root fs" loc d fs1] w r
    by (auto simp: takeWhile_good [OF dir(2)])
  let ?n = "if value \<noteq> [] then newFile p value (Index fs) (Term fs) (ACL (info d)) expireTime
            else newDir p (Index fs) (Term fs) (ACL (info d)) expireTime"
  have pn: "snd (path_Split (Path (info ?n))) = ?name"
    by (simp add: newFile_def newDir_def)
  from ok wd w r it obtain d' where a: "Add ?n d = Inr d'"
    by (cases "Add ?n d") (auto simp: InternalCreate_def Let_def split: if_splits)
  then have d': "d' = Node (info d) (Children d @ [(?name, ?n)])" and free: "map_of (Children d) ?name = None"
    unfolding Add_def Let_def pn by (auto split: if_splits)
  let ?fs2 = "fs1\<lparr>Root := modifyAt loc (\<lambda>_. d') (Root fs1)\<rparr>"
  have "lookup loc (Root ?fs2) = Some d'"
    using ld by (simp add: lookup_modifyAt_same)
  then have l2: "lookup (loc @ [?name]) (Root ?fs2) = Some ?n"
    using free by (simp add: lookup_snoc d' map_of_snoc_new del: map_of_append)
  show "e = (newEvent ActionCreate p (Index fs) (Term fs))
               \<lparr>Value := value, Dir := (value = []),
                Expiration := (if expireTime \<noteq> Permanent then Some expireTime else None)\<rparr>"
    using ok wd w r it a
    by (auto simp: InternalCreate_def Let_def newEvent_def split: if_splits)
  have "lookup (ds @ [?name]) (Root (snd (InternalCreate fs p value expireTime index term))) =
           Some ((if expireTime \<noteq> Permanent then armExpire else (\<lambda>n. n)) ?n)"
  proof (cases "expireTime = Permanent")
    case True
    have "Root (snd (InternalCreate fs p value expireTime index term)) = Root ?fs2"
      using wd w r it a True by (auto simp: InternalCreate_def Let_def notify_def)
    with l2 True loc show ?thesis by simp
  next
    case False
    have "Root (snd (InternalCreate fs p value expireTime index term)) =
        modifyAt (loc @ [?name]) armExpire (Root ?fs2)"
      using wd w r it a False by (auto simp: InternalCreate_def Let_def notify_def)
    with lookup_modifyAt_same [OF l2, of armExpire] False loc show ?thesis by simp
  qed
  then show "\<exists>acl. lookup (ds @ [snd (path_Split p)]) (Root (snd (InternalCreate fs p value expireTime index term))) =
           Some ((if expireTime \<noteq> Permanent then armExpire else (\<lambda>n. n))
                   (if value \<noteq> [] then newFile p value (Index fs) (Term fs) acl expireTime
                    else newDir p (Index fs) (Term fs) acl expireTime))"
    by (cases "value = []") auto
qed

lemma InternalGet_root:
  "fst (InternalGet fs [] index term) = Inr ([], Root fs)"
  by (simp add: InternalGet_def walk_def)

lemma Create_success:
  assumes ok: "fst (Create fs nodePath value expireTime index term) = Inr e"
  shows "cleanComps nodePath \<noteq> []"
    and "fst (hasPermOnParent fs (pathCleaning (slash # nodePath)) ''w'') = None"
    and "Create fs nodePath value expireTime index term =
           InternalCreate (fs\<lparr>Index := index, Term := term\<rparr>) (pathCleaning (slash # nodePath))
             value expireTime index term"
proof -
  let ?p = "pathCleaning (slash # nodePath)"
  let ?fs1 = "fs\<lparr>Index := index, Term := term\<rparr>"
  obtain h where h: "hasPermOnParent fs ?p ''w'' = (h, fs)"
    using hasPermOnParent_state [of fs ?p "''w''"] by (metis prod.collapse)
  obtain r where g: "InternalGet fs ?p index term = (r, ?fs1)"
    using InternalGet_state [of fs ?p index "term"] by (metis prod.collapse)
  from ok h show pn: "fst (hasPermOnParent fs ?p ''w'') = None"
    by (cases h) (simp_all add: Create_def)
  with h have hn: "h = None" by simp
  show "cleanComps nodePath \<noteq> []"
  proof
    assume "cleanComps nodePath = []"
    then have "?p = []" by (simp add: pathCleaning_form)
    with g InternalGet_root [of fs index "term"] have "r = Inr ([], Root fs)" by simp
    with ok h hn g show False by (simp add: Create_def)
  qed
  show "Create fs nodePath value expireTime index term =
           InternalCreate ?fs1 ?p value expireTime index term"
    using ok h hn g by (auto simp: Create_def Let_def split: sum.splits Error.splits if_splits)
qed

section \<open>Create: the outcomes\<close>

lemma fileOnPath_newDir: "fileOnPath cs (newDir p i t acl e) = False"
  by (cases cs) (simp_all add: newDir_def)

lemma lookup_newDir: "cs \<noteq> [] \<Longrightarrow> lookup cs (newDir p i t acl e) = None"
  by (cases cs) (simp_all add: newDir_def)

text \<open>The three results of the walk of \<open>InternalGet\<close>.\<close>

lemma walkLoop_get_file:
  "[] \<notin> set cs \<Longrightarrow> fileOnPath cs n0 \<Longrightarrow>
     \<exists>c. fst (walkLoop getWalkFunc cs fs (loc0, n0)) = Inl (Error EcodeNotDir c)"
proof (induction cs arbitrary: loc0 n0)
  case Nil
  then show ?case by simp
next
  case (Cons c cs)
  then show ?case
    by (cases "map_of (Children n0) c") (auto simp: getWalkFunc_step)
qed

lemma walkLoop_get_nofile:
  "[] \<notin> set cs \<Longrightarrow> \<not> fileOnPath cs n0 \<Longrightarrow>
     (case lookup cs n0 of
        Some n \<Rightarrow> fst (walkLoop getWalkFunc cs fs (loc0, n0)) = Inr (loc0 @ cs, n)
      | None \<Rightarrow> (\<exists>c. fst (walkLoop getWalkFunc cs fs (loc0, n0)) = Inl (Error EcodeKeyNotFound c)))"
proof (induction cs arbitrary: loc0 n0)
  case Nil
  then show ?case by simp
next
  case (Cons c cs)
  show ?case
  proof (cases "map_of (Children n0) c")
    case None
    with Cons.prems show ?thesis by (auto simp: getWalkFunc_step split: if_splits)
  next
    case (Some child)
    with Cons.prems have "\<not> fileOnPath cs child" "[] \<notin> set cs" "IsDir (info n0)" "c \<noteq> []"
      by (auto split: if_splits)
    with Cons.IH [of child "loc0 @ [c]"] Some show ?thesis
      by (auto simp: getWalkFunc_step split: option.splits)
  qed
qed

lemma walkLoop_get_hasPermOnParent:
  "[] \<notin> set cs \<Longrightarrow> fst (walkLoop getWalkFunc cs fs (loc0, n0)) = Inr x \<Longrightarrow>
     hasPermOnParentLoop fs' n0 (butlast cs) perm = (None, fs')"
proof (induction cs arbitrary: loc0 n0)
  case Nil
  then show ?case by simp
next
  case (Cons c cs)
  from Cons.prems obtain child where
    ch: "map_of (Children n0) c = Some child" and
    w: "fst (walkLoop getWalkFunc cs fs (loc0 @ [c], child)) = Inr x"
    by (auto simp: getWalkFunc_step split: if_splits option.splits)
  show ?case
  proof (cases cs)
    case Nil
    then show ?thesis by simp
  next
    case (Cons c' cs')
    with Cons.IH [OF _ w] Cons.prems(1) ch show ?thesis by simp
  qed
qed

text \<open>Writing through pointers.\<close>

lemma map_entry_cong_found:
  "map_of xs k = Some v \<Longrightarrow> f v = g v \<Longrightarrow> AList.map_entry k f xs = AList.map_entry k g xs"
  by (induction xs) (auto split: if_splits)

lemma map_entry_comp:
  "AList.map_entry k f (AList.map_entry k g xs) = AList.map_entry k (\<lambda>x. f (g x)) xs"
  by (induction xs) auto

lemma map_entry_absent: "map_of xs k = None \<Longrightarrow> AList.map_entry k f xs = xs"
  by (induction xs) (auto split: if_splits)

lemma map_entry_snoc_new:
  "map_of xs k = None \<Longrightarrow> AList.map_entry k f (xs @ [(k, v)]) = xs @ [(k, f v)]"
  by (induction xs) (auto split: if_splits)

lemma modifyAt_cong_found:
  "lookup loc r = Some n \<Longrightarrow> f n = g n \<Longrightarrow> modifyAt loc f r = modifyAt loc g r"
proof (induction loc arbitrary: r)
  case Nil
  then show ?case by simp
next
  case (Cons c cs)
  from Cons.prems obtain child where
    ch: "map_of (Children r) c = Some child" and l: "lookup cs child = Some n"
    by (auto split: option.splits)
  have "modifyAt cs f child = modifyAt cs g child"
    using Cons.IH [OF l Cons.prems(2)] .
  then show ?case
    using map_entry_cong_found [OF ch, of "modifyAt cs f" "modifyAt cs g"] by simp
qed

lemma modifyAt_comp: "modifyAt loc f (modifyAt loc g r) = modifyAt loc (\<lambda>x. f (g x)) r"
proof (induction loc arbitrary: r)
  case Nil
  then show ?case by simp
next
  case (Cons c cs)
  have "(\<lambda>x. modifyAt cs f (modifyAt cs g x)) = modifyAt cs (\<lambda>x. f (g x))"
    using Cons.IH by auto
  then show ?case by (simp add: map_entry_comp)
qed

lemma modifyAt_append: "modifyAt (xs @ ys) f = modifyAt xs (modifyAt ys f)"
  by (induction xs) simp_all

lemma info_mkdirs: "info (mkdirs i t cs n) = info n"
  by (cases cs) (simp_all split: option.splits)

lemma lookup_mkdirs_end: "lookup ds (mkdirs i t ds n) = Some (lastDir i t ds n)"
proof (induction ds arbitrary: n)
  case Nil
  then show ?case by simp
next
  case (Cons c cs)
  then show ?case
    by (cases "map_of (Children n) c")
      (simp_all add: map_of_map_entry map_of_snoc_new del: map_of_append)
qed

lemma walkLoop_checkDir_mkdirs:
  "[] \<notin> set ds \<Longrightarrow> \<not> fileOnPath (ds @ [x]) n0 \<Longrightarrow> lookup loc0 (Root fs) = Some n0 \<Longrightarrow>
     walkLoop checkDir (ds @ [[]]) fs (loc0, n0) =
       (Inr (loc0 @ ds, lastDir (Index fs) (Term fs) ds n0),
        fs\<lparr>Root := modifyAt loc0 (mkdirs (Index fs) (Term fs) ds) (Root fs)\<rparr>)"
proof (induction ds arbitrary: fs loc0 n0)
  case Nil
  have "modifyAt loc0 (\<lambda>n. n) (Root fs) = modifyAt loc0 (\<lambda>n. n) (modifyAt loc0 (\<lambda>n. n) (Root fs))"
    by (simp add: modifyAt_comp)
  have id: "modifyAt loc (\<lambda>n. n) r = r" for loc r
  proof (induction loc arbitrary: r)
    case Nil
    then show ?case by simp
  next
    case (Cons c cs)
    have "AList.map_entry c (modifyAt cs (\<lambda>n. n)) xs = xs" for xs
      by (induction xs) (auto simp: Cons.IH)
    then show ?case by simp
  qed
  have "mkdirs (Index fs) (Term fs) [] = (\<lambda>n. n)" by auto
  then show ?case by (simp add: id)
next
  case (Cons c ds)
  let ?i = "Index fs" and ?t = "Term fs"
  from Cons.prems have c: "c \<noteq> []" and ds: "[] \<notin> set ds" and d0: "IsDir (info n0)"
    by (auto split: if_splits)
  show ?case
  proof (cases "map_of (Children n0) c")
    case (Some sub)
    have nf: "\<not> fileOnPath (ds @ [x]) sub"
      using Cons.prems(2) Some d0 by simp
    have l: "lookup (loc0 @ [c]) (Root fs) = Some sub"
      using Cons.prems(3) Some by (simp add: lookup_snoc)
    have m: "modifyAt loc0 (modifyAt [c] (mkdirs ?i ?t ds)) (Root fs) =
             modifyAt loc0 (mkdirs ?i ?t (c # ds)) (Root fs)"
      by (rule modifyAt_cong_found [OF Cons.prems(3)]) (simp add: Some)
    have s: "lastDir ?i ?t (c # ds) n0 = lastDir ?i ?t ds sub"
      using Some by simp
    show ?thesis
      using Cons.IH [OF ds nf l] c Some m s
      by (simp add: checkDir_step modifyAt_append del: mkdirs.simps lastDir.simps)
  next
    case None
    let ?n = "newDir (Join [Path (info n0), c]) ?i ?t (ACL (info n0)) Permanent"
    let ?add = "\<lambda>q. Node (info q) (Children q @ [(c, ?n)])"
    let ?fs = "fs\<lparr>Root := modifyAt loc0 ?add (Root fs)\<rparr>"
    have nf: "\<not> fileOnPath (ds @ [x]) ?n" by (simp add: fileOnPath_newDir)
    have "lookup loc0 (Root ?fs) = Some (?add n0)"
      using Cons.prems(3) by (simp add: lookup_modifyAt_same)
    then have l: "lookup (loc0 @ [c]) (Root ?fs) = Some ?n"
      using None by (simp add: lookup_snoc map_of_snoc_new del: map_of_append)
    have m: "modifyAt loc0 (\<lambda>q. modifyAt [c] (mkdirs ?i ?t ds) (?add q)) (Root fs) =
             modifyAt loc0 (mkdirs ?i ?t (c # ds)) (Root fs)"
      by (rule modifyAt_cong_found [OF Cons.prems(3)])
        (simp add: None map_entry_snoc_new del: map_of_append)
    have w: "walkLoop checkDir ((c # ds) @ [[]]) fs (loc0, n0) =
             walkLoop checkDir (ds @ [[]]) ?fs (loc0 @ [c], ?n)"
      using c None d0 by (simp add: checkDir_step Let_def)
    have s: "lastDir ?i ?t (c # ds) n0 = lastDir ?i ?t ds ?n"
      using None by simp
    show ?thesis
      unfolding w using Cons.IH [OF ds nf l] None m s
      by (simp add: modifyAt_append modifyAt_comp del: mkdirs.simps lastDir.simps)
  qed
qed

lemma lastDir_free:
  "\<not> fileOnPath (ds @ [x]) n \<Longrightarrow> lookup (ds @ [x]) n = None \<Longrightarrow>
     IsDir (info (lastDir i t ds n)) \<and> map_of (Children (lastDir i t ds n)) x = None"
proof (induction ds arbitrary: n)
  case Nil
  then show ?case by (auto split: if_splits option.splits)
next
  case (Cons c ds)
  show ?case
  proof (cases "map_of (Children n) c")
    case None
    let ?n = "newDir (Join [Path (info n), c]) i t (ACL (info n)) Permanent"
    have "\<not> fileOnPath (ds @ [x]) ?n" by (simp add: fileOnPath_newDir)
    moreover have "lookup (ds @ [x]) ?n = None" by (simp add: lookup_newDir)
    ultimately show ?thesis using Cons.IH [of ?n] None by simp
  next
    case (Some child)
    with Cons.prems have "\<not> fileOnPath (ds @ [x]) child" "lookup (ds @ [x]) child = None"
      by (auto split: if_splits)
    with Cons.IH [of child] Some show ?thesis by simp
  qed
qed

lemma mkdirs_fresh:
  "Suc k \<le> length ds \<Longrightarrow> lookup (take (Suc k) ds) n = None \<Longrightarrow>
     createdDir i t ds (mkdirs i t ds n) (Suc k)"
proof (induction ds arbitrary: k n)
  case Nil
  then show ?case by simp
next
  case (Cons c ds)
  let ?n = "newDir (Join [Path (info n), c]) i t (ACL (info n)) Permanent"
  have L: "lookup (c # q) (mkdirs i t (c # ds) n) =
             lookup q (mkdirs i t ds (case map_of (Children n) c of None \<Rightarrow> ?n | Some child \<Rightarrow> child))"
    for q
  proof (cases "map_of (Children n) c")
    case None
    then show ?thesis
      using map_of_snoc_new [OF None, of "mkdirs i t ds ?n"] by (simp del: map_of_append)
  next
    case (Some child)
    then show ?thesis by (simp add: map_of_map_entry)
  qed
  show ?case
  proof (cases k)
    case 0
    with Cons.prems have none: "map_of (Children n) c = None"
      by (auto split: option.splits)
    have "lookup [c] (mkdirs i t (c # ds) n) = Some (mkdirs i t ds ?n)"
      using L [of "[]"] none by simp
    moreover have "lookup [] (mkdirs i t (c # ds) n) = Some (mkdirs i t (c # ds) n)" by simp
    ultimately show ?thesis
      using 0 unfolding createdDir_def
      by (simp add: info_mkdirs newDir_def del: mkdirs.simps lookup.simps)
  next
    case (Suc j)
    with Cons.prems have j: "Suc j \<le> length ds" by simp
    then have ne: "take (Suc j) ds \<noteq> []" by (cases ds) auto
    let ?m = "case map_of (Children n) c of None \<Rightarrow> ?n | Some child \<Rightarrow> child"
    have "lookup (take (Suc j) ds) ?m = None"
    proof (cases "map_of (Children n) c")
      case None
      then show ?thesis using lookup_newDir [OF ne] by simp
    next
      case (Some child)
      with Cons.prems Suc show ?thesis by simp
    qed
    from Cons.IH [OF j this] show ?thesis
      using Suc unfolding createdDir_def
      by (simp add: L del: mkdirs.simps lookup.simps)
  qed
qed

lemma info_modifyAt: "(\<And>x. info (f x) = info x) \<Longrightarrow> info (modifyAt loc f r) = info r"
  by (cases loc) simp_all

lemma lookup_info_modifyAt:
  "(\<And>x. info (f x) = info x) \<Longrightarrow>
     map_option info (lookup q (modifyAt (q @ rest) f r)) = map_option info (lookup q r)"
proof (induction q arbitrary: r)
  case Nil
  then show ?case by (simp add: info_modifyAt)
next
  case (Cons c q)
  then show ?case
    by (cases "map_of (Children r) c") (simp_all add: map_of_map_entry)
qed

lemma createdDir_cong:
  "map_option info (lookup (take k cs) r) = map_option info (lookup (take k cs') r') \<Longrightarrow>
   map_option info (lookup (take (k - 1) cs) r) = map_option info (lookup (take (k - 1) cs') r') \<Longrightarrow>
     createdDir i t cs r k = createdDir i t cs' r' k"
  unfolding createdDir_def
  by (cases "lookup (take k cs) r"; cases "lookup (take k cs') r'";
      cases "lookup (take (k - 1) cs) r"; cases "lookup (take (k - 1) cs') r'") auto

lemma Create_exists:
  assumes "fst (InternalGet fs (pathCleaning (slash # nodePath)) index term) = Inr x"
  shows "fst (Create fs nodePath value expireTime index term) =
           Inl (Error EcodeNodeExist (pathCleaning (slash # nodePath)))"
proof -
  let ?p = "pathCleaning (slash # nodePath)"
  let ?fs1 = "fs\<lparr>Index := index, Term := term\<rparr>"
  let ?cs = "cleanComps nodePath"
  have ne: "[] \<notin> set ?cs" using cleanComps_good [of nodePath] by (auto simp: goodElems_def)
  have g: "InternalGet fs ?p index term = (Inr x, ?fs1)"
    using assms InternalGet_state [of fs ?p index "term"] by (metis prod.collapse)
  have w: "fst (walkLoop getWalkFunc ?cs ?fs1 ([], Root fs)) = Inr x"
    using assms Split_pathCleaning [of nodePath] by (simp add: InternalGet_def walk_def)
  have h: "hasPermOnParent fs ?p ''w'' = (None, fs)"
    using walkLoop_get_hasPermOnParent [OF ne w, of fs "''w''"] Split_pathCleaning [of nodePath]
    by (simp add: hasPermOnParent_def)
  show ?thesis using h g by (simp add: Create_def)
qed

lemma Create_notDir:
  assumes perm: "fst (hasPermOnParent fs (pathCleaning (slash # nodePath)) ''w'') = None"
    and onPath: "fileOnPath (drop 1 (Split (pathCleaning (slash # nodePath)))) (Root fs)"
  shows "\<exists>c. fst (InternalGet fs (pathCleaning (slash # nodePath)) index term) = Inl (Error EcodeNotDir c)
           \<and> fst (Create fs nodePath value expireTime index term) = Inl (Error EcodeNotDir c)"
proof -
  let ?p = "pathCleaning (slash # nodePath)"
  let ?fs1 = "fs\<lparr>Index := index, Term := term\<rparr>"
  let ?cs = "cleanComps nodePath"
  have ne: "[] \<notin> set ?cs" using cleanComps_good [of nodePath] by (auto simp: goodElems_def)
  have f: "fileOnPath ?cs (Root fs)" using onPath Split_pathCleaning [of nodePath] by simp
  obtain c where c: "fst (walkLoop getWalkFunc ?cs ?fs1 ([], Root fs)) = Inl (Error EcodeNotDir c)"
    using walkLoop_get_file [OF ne f] by blast
  then have i: "fst (InternalGet fs ?p index term) = Inl (Error EcodeNotDir c)"
    using Split_pathCleaning [of nodePath] by (simp add: InternalGet_def walk_def)
  then have g: "InternalGet fs ?p index term = (Inl (Error EcodeNotDir c), ?fs1)"
    using InternalGet_state [of fs ?p index "term"] by (metis prod.collapse)
  have h: "hasPermOnParent fs ?p ''w'' = (None, fs)"
    using perm hasPermOnParent_state [of fs ?p "''w''"] by (metis prod.collapse)
  have "fst (Create fs nodePath value expireTime index term) = Inl (Error EcodeNotDir c)"
    using h g by (simp add: Create_def)
  with i show ?thesis by blast
qed

lemma Create_created:
  assumes perm: "fst (hasPermOnParent fs (pathCleaning (slash # nodePath)) ''w'') = None"
    and nofile: "\<not> fileOnPath (drop 1 (Split (pathCleaning (slash # nodePath)))) (Root fs)"
    and missing: "fst (InternalGet fs (pathCleaning (slash # nodePath)) index term) = Inl err"
  shows "\<exists>e. fst (Create fs nodePath value expireTime index term) = Inr e"
    and "0 < k \<Longrightarrow> k < length (drop 1 (Split (pathCleaning (slash # nodePath)))) \<Longrightarrow>
         lookup (take k (drop 1 (Split (pathCleaning (slash # nodePath))))) (Root fs) = None \<Longrightarrow>
         createdDir index term (drop 1 (Split (pathCleaning (slash # nodePath))))
           (Root (snd (Create fs nodePath value expireTime index term))) k"
proof -
  let ?p = "pathCleaning (slash # nodePath)"
  let ?fs1 = "fs\<lparr>Index := index, Term := term\<rparr>"
  let ?cs = "cleanComps nodePath"
  let ?ds = "butlast ?cs"
  let ?name = "last ?cs"
  have cs: "drop 1 (Split ?p) = ?cs" by (rule Split_pathCleaning)
  have ne: "[] \<notin> set ?cs" using cleanComps_good [of nodePath] by (auto simp: goodElems_def)
  then have ned: "[] \<notin> set ?ds" by (auto dest: in_set_butlastD)
  have nf: "\<not> fileOnPath ?cs (Root fs)" using nofile cs by simp
  have w: "fst (InternalGet fs ?p index term) = fst (walkLoop getWalkFunc ?cs ?fs1 ([], Root fs))"
    using cs by (simp add: InternalGet_def walk_def)
  have miss: "lookup ?cs (Root fs) = None"
    using walkLoop_get_nofile [OF ne nf, of ?fs1 "[]"] missing w
    by (cases "lookup ?cs (Root fs)") auto
  then obtain c where err: "err = Error EcodeKeyNotFound c"
    using walkLoop_get_nofile [OF ne nf, of ?fs1 "[]"] missing w by auto
  have csne: "?cs \<noteq> []" using miss by auto
  then have split: "?ds @ [?name] = ?cs" by simp
  have g: "InternalGet fs ?p index term = (Inl (Error EcodeKeyNotFound c), ?fs1)"
    using missing err InternalGet_state [of fs ?p index "term"] by (metis prod.collapse)
  have h: "hasPermOnParent fs ?p ''w'' = (None, fs)"
    using perm hasPermOnParent_state [of fs ?p "''w''"] by (metis prod.collapse)
  have C: "Create fs nodePath value expireTime index term =
           InternalCreate ?fs1 ?p value expireTime index term"
    using h g by (simp add: Create_def)
  note S = pathCleaning_split [OF csne]
  have nf': "\<not> fileOnPath (?ds @ [?name]) (Root fs)" using nf split by simp
  have miss': "lookup (?ds @ [?name]) (Root fs) = None" using miss split by simp
  let ?d = "lastDir index term ?ds (Root fs)"
  let ?r1 = "mkdirs index term ?ds (Root fs)"
  have D: "walkLoop checkDir (?ds @ [[]]) ?fs1 ([], Root fs) = (Inr (?ds, ?d), ?fs1\<lparr>Root := ?r1\<rparr>)"
    using walkLoop_checkDir_mkdirs [OF ned nf', of "[]" ?fs1] by simp
  have F: "IsDir (info ?d)" "map_of (Children ?d) ?name = None"
    using lastDir_free [OF nf' miss', of index "term"] by simp_all
  let ?n = "if value \<noteq> [] then newFile ?p value index term (ACL (info ?d)) expireTime
            else newDir ?p index term (ACL (info ?d)) expireTime"
  let ?add = "\<lambda>q. Node (info q) (Children q @ [(?name, ?n)])"
  have pn: "snd (path_Split (Path (info ?n))) = ?name"
    using S(1) by (simp add: newFile_def newDir_def)
  have A: "Add ?n ?d = Inr (?add ?d)"
    unfolding Add_def Let_def pn using F by simp
  let ?r2 = "modifyAt ?ds (\<lambda>_. ?add ?d) ?r1"
  let ?r3 = "if expireTime \<noteq> Permanent then modifyAt (?ds @ [?name]) armExpire ?r2 else ?r2"
  have wd: "walk ?fs1 (fst (path_Split ?p)) checkDir = (Inr (?ds, ?d), ?fs1\<lparr>Root := ?r1\<rparr>)"
    using S(2) D by (simp add: walk_def)
  have IC1: "\<exists>e. fst (InternalCreate ?fs1 ?p value expireTime index term) = Inr e"
    using wd A S(1) by (auto simp: InternalCreate_def Let_def)
  have IC2: "Root (snd (InternalCreate ?fs1 ?p value expireTime index term)) = ?r3"
    using wd A S(1) by (auto simp: InternalCreate_def Let_def notify_def)
  show "\<exists>e. fst (Create fs nodePath value expireTime index term) = Inr e"
    using IC1 C by simp
  have r2: "?r2 = modifyAt ?ds ?add ?r1"
    by (rule modifyAt_cong_found [OF lookup_mkdirs_end]) simp
  have keep: "map_option info (lookup q ?r3) = map_option info (lookup q ?r1)"
    if q: "?ds = q @ rest" for q rest
  proof -
    have a: "map_option info (lookup q (modifyAt (q @ rest) ?add ?r1)) = map_option info (lookup q ?r1)"
      by (rule lookup_info_modifyAt) simp
    have b: "map_option info (lookup q (modifyAt (q @ rest) (modifyAt [?name] armExpire) r)) =
             map_option info (lookup q r)" for r
      by (rule lookup_info_modifyAt) simp
    show ?thesis
      using a b [of "modifyAt (q @ rest) ?add ?r1"]
      unfolding r2 modifyAt_append [of ?ds "[?name]"] q [symmetric]
      by (simp del: modifyAt.simps)
  qed
  show "createdDir index term (drop 1 (Split ?p)) (Root (snd (Create fs nodePath value expireTime index term))) k"
    if k: "0 < k" "k < length (drop 1 (Split ?p))"
      and none: "lookup (take k (drop 1 (Split ?p))) (Root fs) = None"
  proof -
    have klt: "k < length ?cs" using k(2) unfolding cs .
    with k(1) obtain j where j: "k = Suc j" "Suc j \<le> length ?ds"
      by (cases k) auto
    have tk: "take k ?cs = take k ?ds" "take (k - 1) ?cs = take (k - 1) ?ds"
      using j by (simp_all add: take_butlast)
    have none': "lookup (take (Suc j) ?ds) (Root fs) = None"
      using none cs tk j by simp
    have fresh: "createdDir index term ?ds ?r1 (Suc j)"
      using mkdirs_fresh [OF j(2) none'] .
    have k1: "map_option info (lookup (take k ?cs) ?r3) = map_option info (lookup (take k ?ds) ?r1)"
      unfolding tk by (rule keep [of "take k ?ds" "drop k ?ds"]) simp
    have k2: "map_option info (lookup (take (k - 1) ?cs) ?r3) =
              map_option info (lookup (take (k - 1) ?ds) ?r1)"
      unfolding tk by (rule keep [of "take (k - 1) ?ds" "drop (k - 1) ?ds"]) simp
    have "createdDir index term ?cs ?r3 k = createdDir index term ?ds ?r1 k"
      using k1 k2 by (rule createdDir_cong)
    with fresh j show ?thesis
      unfolding cs C IC2 by simp
  qed
qed

section \<open>CompareAndSwap\<close>

text \<open>
  C1 (as amended).  For TestAndSet on an existing file node on which the caller has
  \<open>rw\<close>: the swap succeeds exactly when the stored value equals \<open>prevValue\<close> or the
  stored modification index equals \<open>prevIndex\<close> (one of the two suffices).  On
  success the node is written; on mismatch the node and the whole tree are unchanged
  (only \<open>Index\<close> and \<open>Term\<close> of the file system are set) and the error is
  \<open>EcodeTestFailed\<close> with the cause \<open>[prevValue/value] [prevIndex/modifiedIndex]\<close>.
\<close>

theorem TestAndSet_compare:
  assumes get: "fst (InternalGet fs (pathCleaning (slash # nodePath)) index term) = Inr (loc, f)"
    and perm: "fst (hasPerm (fs\<lparr>Index := index, Term := term\<rparr>) f ''rw'' False) = None"
    and isFile: "\<not> IsDir (info f)"
  shows "fst (TestAndSet fs nodePath prevValue prevIndex value expireTime index term) =
           (if NodeValue (info f) = prevValue \<or> ModifiedIndex (info f) = prevIndex
            then Inr ((newEvent ActionTestAndSet (pathCleaning (slash # nodePath)) index term)
                        \<lparr>PrevValue := NodeValue (info f), Value := value\<rparr>)
            else Inl (Error EcodeTestFailed
                        (testCause prevValue (NodeValue (info f)) prevIndex (ModifiedIndex (info f)))))
       \<and> lookup loc (Root (snd (TestAndSet fs nodePath prevValue prevIndex value expireTime index term))) =
           Some (if NodeValue (info f) = prevValue \<or> ModifiedIndex (info f) = prevIndex
                 then Write value index term f else f)
       \<and> (if NodeValue (info f) = prevValue \<or> ModifiedIndex (info f) = prevIndex
          then Root (snd (TestAndSet fs nodePath prevValue prevIndex value expireTime index term)) =
                 modifyAt loc (Write value index term) (Root fs)
          else snd (TestAndSet fs nodePath prevValue prevIndex value expireTime index term) =
                 fs\<lparr>Index := index, Term := term\<rparr>)"
proof -
  let ?p = "pathCleaning (slash # nodePath)"
  let ?fs1 = "fs\<lparr>Index := index, Term := term\<rparr>"
  have g: "InternalGet fs ?p index term = (Inr (loc, f), ?fs1)"
    using get InternalGet_state [of fs ?p index "term"] by (metis prod.collapse)
  have h: "hasPerm ?fs1 f ''rw'' False = (None, ?fs1)"
    using perm hasPerm_state_both(1) [of ?fs1 f "''rw''" False] by (metis prod.collapse)
  have l: "lookup loc (Root fs) = Some f" using InternalGet_lookup [OF get] .
  show ?thesis
    using g h isFile l
    by (simp add: TestAndSet_def Let_def notify_def lookup_modifyAt_same)
qed

text \<open>
  The scenario of the specification: after \<open>Create("/k", "v1", Permanent, 1, 1)\<close>,
  \<open>TestAndSet("/k", "wrong", 0, "v2", Permanent, 2, 1)\<close> fails with the cause
  \<open>[wrong/v1] [0/1]\<close> and leaves the tree as it was.
\<close>

theorem TestAndSet_compare_witness:
  "fst (TestAndSet fsK ''/k'' ''wrong'' 0 ''v2'' Permanent 2 1) =
     Inl (Error EcodeTestFailed ''[wrong/v1] [0/1]'')
   \<and> lookup [''k''] (Root (snd (TestAndSet fsK ''/k'' ''wrong'' 0 ''v2'' Permanent 2 1))) = Some nodeK
   \<and> snd (TestAndSet fsK ''/k'' ''wrong'' 0 ''v2'' Permanent 2 1) = fsK\<lparr>Index := 2, Term := 1\<rparr>"
proof -
  have g: "fst (InternalGet fsK (pathCleaning (slash # ''/k'')) 2 1) = Inr ([''k''], nodeK)"
    by code_simp
  have p: "fst (hasPerm (fsK\<lparr>Index := 2, Term := 1\<rparr>) nodeK ''rw'' False) = None"
    by code_simp
  have f: "\<not> IsDir (info nodeK)"
    by (simp add: nodeK_def newFile_def)
  have v: "NodeValue (info nodeK) = ''v1''" "ModifiedIndex (info nodeK) = 1"
    by (simp_all add: nodeK_def newFile_def)
  have c: "testCause ''wrong'' ''v1'' 0 1 = ''[wrong/v1] [0/1]''"
    by code_simp
  note T = TestAndSet_compare [OF g p f, of "''wrong''" 0 "''v2''" Permanent]
  have r1: "fst (TestAndSet fsK ''/k'' ''wrong'' 0 ''v2'' Permanent 2 1) =
     Inl (Error EcodeTestFailed ''[wrong/v1] [0/1]'')"
    using conjunct1 [OF T] v c by simp
  have r2: "lookup [''k''] (Root (snd (TestAndSet fsK ''/k'' ''wrong'' 0 ''v2'' Permanent 2 1))) =
     Some nodeK"
    using conjunct1 [OF conjunct2 [OF T]] v by simp
  have r3: "snd (TestAndSet fsK ''/k'' ''wrong'' 0 ''v2'' Permanent 2 1) = fsK\<lparr>Index := 2, Term := 1\<rparr>"
    using conjunct2 [OF conjunct2 [OF T]] v by simp
  show ?thesis
    using r1 r2 r3 by (intro conjI)
qed

text \<open>
  The claim as stated fails: with both \<open>prevValue\<close> and \<open>prevIndex\<close> supplied and
  only the value matching (stored index 1, requested index 5), the condition of the
  specification is false, yet the swap succeeds.
\<close>

theorem TestAndSet_both_supplied_counterexample:
  "fst (InternalGet fsK (pathCleaning (slash # ''/k'')) 3 1) = Inr ([''k''], nodeK)
   \<and> \<not> specMatch ''v1'' 5 nodeK
   \<and> fst (TestAndSet fsK ''/k'' ''v1'' 5 ''v2'' Permanent 3 1) =
       Inr ((newEvent ActionTestAndSet ''/k'' 3 1)\<lparr>PrevValue := ''v1'', Value := ''v2''\<rparr>)"
proof -
  have g: "fst (InternalGet fsK (pathCleaning (slash # ''/k'')) 3 1) = Inr ([''k''], nodeK)"
    by code_simp
  have m: "\<not> specMatch ''v1'' 5 nodeK"
    by (simp add: specMatch_def nodeK_def newFile_def)
  have t: "fst (TestAndSet fsK ''/k'' ''v1'' 5 ''v2'' Permanent 3 1) =
       Inr ((newEvent ActionTestAndSet ''/k'' 3 1)\<lparr>PrevValue := ''v1'', Value := ''v2''\<rparr>)"
    by code_simp
  from g m t show ?thesis by simp
qed

section \<open>Get\<close>

text \<open>
  C8.  Get mutates no node and arms no timer: the file system after any Get is the
  one before it with \<open>Index\<close> and \<open>Term\<close> set to the \<open>(index, term)\<close> of the call;
  the tree (every value, child list, ACL, expiration, timer and index of every node)
  and the events handed to the watcher hub are the same.  The assignment comes before
  every read: the call behaves as if it had started with \<open>Index\<close> and \<open>Term\<close> already
  set.
\<close>

theorem Get_frame:
  "snd (Get fs nodePath recursive sorting index term) = fs\<lparr>Index := index, Term := term\<rparr>
   \<and> Root (snd (Get fs nodePath recursive sorting index term)) = Root fs
   \<and> Notified (snd (Get fs nodePath recursive sorting index term)) = Notified fs
   \<and> Get fs nodePath recursive sorting index term =
       Get (fs\<lparr>Index := index, Term := term\<rparr>) nodePath recursive sorting index term"
proof -
  have "InternalGet fs (pathCleaning (slash # nodePath)) index term =
        InternalGet (fs\<lparr>Index := index, Term := term\<rparr>) (pathCleaning (slash # nodePath)) index term"
    by (simp add: InternalGet_def)
  then have "Get fs nodePath recursive sorting index term =
       Get (fs\<lparr>Index := index, Term := term\<rparr>) nodePath recursive sorting index term"
    by (simp add: Get_def)
  then show ?thesis
    by (simp add: Get_state)
qed

section \<open>Index and Term across operations\<close>

lemma applyOp_index:
  "(Index (applyOp fs (op, index, term)), Term (applyOp fs (op, index, term))) = (index, term)
   \<or> (Index (applyOp fs (op, index, term)), Term (applyOp fs (op, index, term))) = (Index fs, Term fs)"
proof (cases op)
  case (OpGet p r s)
  then show ?thesis by (simp add: applyOp_def Get_state)
next
  case (OpCreate p v e)
  then show ?thesis using Create_index [of fs p v e index "term"]
    by (simp add: applyOp_def split: if_splits)
next
  case (OpUpdate p v e)
  then show ?thesis by (simp add: applyOp_def Update_index)
next
  case (OpTestAndSet p pv pi v e)
  then show ?thesis by (simp add: applyOp_def TestAndSet_index)
next
  case (OpDelete p r)
  then show ?thesis by (simp add: applyOp_def Delete_index)
qed

lemma nondecreasing_start:
  "nondecreasing q qs \<Longrightarrow> fst p \<le> fst q \<Longrightarrow> snd p \<le> snd q \<Longrightarrow> nondecreasing p qs"
  by (cases qs) auto

lemma applyOps_index:
  "nondecreasing (Index fs, Term fs) (map snd ops) \<Longrightarrow>
     Index fs \<le> Index (applyOps fs ops) \<and> Term fs \<le> Term (applyOps fs ops)
     \<and> (Index (applyOps fs ops), Term (applyOps fs ops)) \<in> set ((Index fs, Term fs) # map snd ops)"
proof (induction ops arbitrary: fs)
  case Nil
  then show ?case by simp
next
  case (Cons x ops)
  obtain op index trm where x: "x = (op, index, trm)" by (cases x)
  let ?fs1 = "applyOp fs x"
  from Cons.prems x have le: "Index fs \<le> index" "Term fs \<le> trm"
    and nd: "nondecreasing (index, trm) (map snd ops)" by simp_all
  have one: "(Index ?fs1, Term ?fs1) = (index, trm) \<or> (Index ?fs1, Term ?fs1) = (Index fs, Term fs)"
    using applyOp_index [of fs op index trm] x by simp
  then have le1: "Index fs \<le> Index ?fs1" "Term fs \<le> Term ?fs1"
    and ge1: "Index ?fs1 \<le> index" "Term ?fs1 \<le> trm"
    using le by auto
  have "nondecreasing (Index ?fs1, Term ?fs1) (map snd ops)"
    using nondecreasing_start [OF nd] ge1 by simp
  from Cons.IH [OF this]
  have ih: "Index ?fs1 \<le> Index (applyOps ?fs1 ops)" "Term ?fs1 \<le> Term (applyOps ?fs1 ops)"
    "(Index (applyOps ?fs1 ops), Term (applyOps ?fs1 ops)) \<in> set ((Index ?fs1, Term ?fs1) # map snd ops)"
    by simp_all
  have m: "(Index (applyOps ?fs1 ops), Term (applyOps ?fs1 ops))
             \<in> set ((Index fs, Term fs) # map snd (x # ops))"
    using ih(3) one x by auto
  show ?case
    using le1 ih(1,2) m by (auto intro: order_trans)
qed

text \<open>
  C9 (as amended).  Every operation assigns the pair it is given to \<open>(Index, Term)\<close>:
  after Get, Update, TestAndSet and Delete the stored pair is the supplied pair,
  whatever the result; after Create it is the supplied pair, unless the permission
  check refuses the Create, which then leaves the stored pair.  So across a sequence
  of operations whose supplied pairs never decrease, starting at or above the stored
  pair, the stored pair never decreases, and it ends at the stored pair or at one of
  the supplied pairs.
\<close>

theorem IndexTerm_monotone:
  "(Index (snd (Get fs nodePath recursive sorting index term)),
    Term (snd (Get fs nodePath recursive sorting index term))) = (index, term)
   \<and> (Index (snd (Update fs nodePath value expireTime index term)),
      Term (snd (Update fs nodePath value expireTime index term))) = (index, term)
   \<and> (Index (snd (TestAndSet fs nodePath prevValue prevIndex value expireTime index term)),
      Term (snd (TestAndSet fs nodePath prevValue prevIndex value expireTime index term))) =
       (index, term)
   \<and> (Index (snd (Delete fs nodePath recursive index term)),
      Term (snd (Delete fs nodePath recursive index term))) = (index, term)
   \<and> (Index (snd (Create fs nodePath value expireTime index term)),
      Term (snd (Create fs nodePath value expireTime index term))) =
       (if fst (hasPermOnParent fs (pathCleaning (slash # nodePath)) ''w'') = None
        then (index, term) else (Index fs, Term fs))
   \<and> (nondecreasing (Index fs, Term fs) (map snd ops) \<longrightarrow>
        Index fs \<le> Index (applyOps fs ops) \<and> Term fs \<le> Term (applyOps fs ops)
        \<and> (Index (applyOps fs ops), Term (applyOps fs ops))
             \<in> set ((Index fs, Term fs) # map snd ops))"
proof -
  have g: "(Index (snd (Get fs nodePath recursive sorting index term)),
    Term (snd (Get fs nodePath recursive sorting index term))) = (index, term)"
    by (simp add: Get_state)
  have u: "(Index (snd (Update fs nodePath value expireTime index term)),
      Term (snd (Update fs nodePath value expireTime index term))) = (index, term)"
    by (simp add: Update_index)
  have t: "(Index (snd (TestAndSet fs nodePath prevValue prevIndex value expireTime index term)),
      Term (snd (TestAndSet fs nodePath prevValue prevIndex value expireTime index term))) =
       (index, term)"
    by (simp add: TestAndSet_index)
  have d: "(Index (snd (Delete fs nodePath recursive index term)),
      Term (snd (Delete fs nodePath recursive index term))) = (index, term)"
    by (simp add: Delete_index)
  note c = Create_index [of fs nodePath "value" expireTime index "term"]
  have m: "nondecreasing (Index fs, Term fs) (map snd ops) \<longrightarrow>
        Index fs \<le> Index (applyOps fs ops) \<and> Term fs \<le> Term (applyOps fs ops)
        \<and> (Index (applyOps fs ops), Term (applyOps fs ops))
             \<in> set ((Index fs, Term fs) # map snd ops)"
    using applyOps_index [of fs ops] by blast
  from g u t d c m show ?thesis by (intro conjI)
qed

text \<open>
  On \<open>fsK\<close> (stored pair \<open>(1, 1)\<close>): a Get with \<open>(2, 1)\<close> stores \<open>(2, 1)\<close>, and
  the sequence Get with \<open>(2, 1)\<close>, Update with \<open>(3, 1)\<close> does not decrease the pair.
\<close>

theorem IndexTerm_monotone_witness:
  "nondecreasing (Index fsK, Term fsK)
      (map snd [(OpGet ''/k'' False False, 2, 1), (OpUpdate ''/k'' ''v2'' Permanent, 3, 1)])
   \<and> (Index (snd (Get fsK ''/k'' False False 2 1)), Term (snd (Get fsK ''/k'' False False 2 1))) =
       (2, 1)
   \<and> Index fsK \<le> Index (applyOps fsK
         [(OpGet ''/k'' False False, 2, 1), (OpUpdate ''/k'' ''v2'' Permanent, 3, 1)])
   \<and> Term fsK \<le> Term (applyOps fsK
         [(OpGet ''/k'' False False, 2, 1), (OpUpdate ''/k'' ''v2'' Permanent, 3, 1)])"
proof -
  let ?ops = "[(OpGet ''/k'' False False, 2 :: 64 word, 1 :: 64 word),
               (OpUpdate ''/k'' ''v2'' Permanent, 3, 1)]"
  have i: "Index fsK = 1" "Term fsK = 1"
    using Create_index [of fsNew "''/k''" "''v1''" Permanent 1 1]
    by (auto simp: fsK_def split: if_splits) code_simp+
  have n: "nondecreasing (Index fsK, Term fsK) (map snd ?ops)"
    by (simp add: i)
  note T = IndexTerm_monotone [of fsK "''/k''" False False 2 1 "[]" Permanent "[]" 0 ?ops]
  have a: "(Index (snd (Get fsK ''/k'' False False 2 1)), Term (snd (Get fsK ''/k'' False False 2 1))) =
       (2, 1)"
    using conjunct1 [OF T] .
  have b: "Index fsK \<le> Index (applyOps fsK ?ops) \<and> Term fsK \<le> Term (applyOps fsK ?ops)"
    using T n by blast
  from n a b show ?thesis by blast
qed

text \<open>
  The claim as stated fails for arbitrary pairs: a Get with index 5 followed by a
  Get with index 3 leaves the stored index at 3.
\<close>

theorem IndexTerm_decreases_counterexample:
  "Index (applyOps fsK [(OpGet ''/k'' False False, 5, 1)]) = 5
   \<and> Index (applyOps fsK [(OpGet ''/k'' False False, 5, 1), (OpGet ''/k'' False False, 3, 1)]) = 3
   \<and> (3 :: 64 word) < 5"
  by (simp add: applyOp_def Get_state)

section \<open>Update\<close>

lemma Update_result:
  assumes get: "fst (InternalGet fs (pathCleaning (slash # nodePath)) index term) = Inr (loc, n)"
    and perm: "fst (hasPerm (fs\<lparr>Index := index, Term := term\<rparr>) n ''w'' False) = None"
  shows "fst (Update fs nodePath value expireTime index term) =
           (if IsDir (info n) \<and> value \<noteq> [] then Inl (Error EcodeNotFile (pathCleaning (slash # nodePath)))
            else Inr ((newEvent ActionUpdate (pathCleaning (slash # nodePath)) index term)
                   \<lparr>PrevValue := (if IsDir (info n) then [] else NodeValue (info n)),
                    Value := (if IsDir (info n) then [] else value),
                    Expiration := (if expireTime \<noteq> Permanent then Some expireTime else None)\<rparr>))"
    and "lookup loc (Root (snd (Update fs nodePath value expireTime index term))) =
           Some (if IsDir (info n) \<and> value \<noteq> [] then n
                 else (let m = (if IsDir (info n) then n else Write value index term n);
                           m = (if ExpireTime (info n) \<noteq> Permanent \<and> expireTime \<noteq> Permanent
                                then stopExpire m else m)
                       in if expireTime \<noteq> Permanent
                          then armExpire (mapInfo (\<lambda>a. a\<lparr>ExpireTime := expireTime\<rparr>) m) else m))"
    and "IsDir (info n) \<and> value \<noteq> [] \<Longrightarrow>
           snd (Update fs nodePath value expireTime index term) = fs\<lparr>Index := index, Term := term\<rparr>"
proof -
  let ?p = "pathCleaning (slash # nodePath)"
  let ?fs1 = "fs\<lparr>Index := index, Term := term\<rparr>"
  have g: "InternalGet fs ?p index term = (Inr (loc, n), ?fs1)"
    using get InternalGet_state [of fs ?p index "term"] by (metis prod.collapse)
  have h: "hasPerm ?fs1 n ''w'' False = (None, ?fs1)"
    using perm hasPerm_state_both(1) [of ?fs1 n "''w''" False] by (metis prod.collapse)
  have l: "lookup loc (Root fs) = Some n" using InternalGet_lookup [OF get] .
  show "fst (Update fs nodePath value expireTime index term) =
           (if IsDir (info n) \<and> value \<noteq> [] then Inl (Error EcodeNotFile (pathCleaning (slash # nodePath)))
            else Inr ((newEvent ActionUpdate (pathCleaning (slash # nodePath)) index term)
                   \<lparr>PrevValue := (if IsDir (info n) then [] else NodeValue (info n)),
                    Value := (if IsDir (info n) then [] else value),
                    Expiration := (if expireTime \<noteq> Permanent then Some expireTime else None)\<rparr>))"
    using g h by (simp add: Update_def Let_def newEvent_def)
  show "lookup loc (Root (snd (Update fs nodePath value expireTime index term))) =
           Some (if IsDir (info n) \<and> value \<noteq> [] then n
                 else (let m = (if IsDir (info n) then n else Write value index term n);
                           m = (if ExpireTime (info n) \<noteq> Permanent \<and> expireTime \<noteq> Permanent
                                then stopExpire m else m)
                       in if expireTime \<noteq> Permanent
                          then armExpire (mapInfo (\<lambda>a. a\<lparr>ExpireTime := expireTime\<rparr>) m) else m))"
    using g h l by (simp add: Update_def Let_def notify_def lookup_modifyAt_same)
  show "IsDir (info n) \<and> value \<noteq> [] \<Longrightarrow>
           snd (Update fs nodePath value expireTime index term) = fs\<lparr>Index := index, Term := term\<rparr>"
    using g h by (simp add: Update_def Let_def)
qed

text \<open>
  C6.  For Update on an existing target on which the caller has \<open>w\<close>: a directory
  with a non-empty value fails with \<open>EcodeNotFile\<close> and changes nothing; a directory
  with an empty value is left as it was apart from its expiration (and timer); for a
  file a non-empty value replaces the stored value, an empty value leaves it, and the
  modification index and term are set to those of the call.
\<close>

theorem Update_value:
  assumes get: "fst (InternalGet fs (pathCleaning (slash # nodePath)) index term) = Inr (loc, n)"
    and perm: "fst (hasPerm (fs\<lparr>Index := index, Term := term\<rparr>) n ''w'' False) = None"
  shows "(if IsDir (info n) \<and> value \<noteq> []
          then fst (Update fs nodePath value expireTime index term) =
                 Inl (Error EcodeNotFile (pathCleaning (slash # nodePath)))
             \<and> snd (Update fs nodePath value expireTime index term) = fs\<lparr>Index := index, Term := term\<rparr>
          else fst (Update fs nodePath value expireTime index term) =
                 Inr ((newEvent ActionUpdate (pathCleaning (slash # nodePath)) index term)
                   \<lparr>PrevValue := (if IsDir (info n) then [] else NodeValue (info n)),
                    Value := (if IsDir (info n) then [] else value),
                    Expiration := (if expireTime \<noteq> Permanent then Some expireTime else None)\<rparr>))
       \<and> map_option (withExpiry (expiry n)) (lookup loc (Root (snd (Update fs nodePath value expireTime index term)))) =
           Some (if IsDir (info n) then n
                 else mapInfo (\<lambda>a. a\<lparr>NodeValue := (if value \<noteq> [] then value else NodeValue (info n)),
                                     ModifiedIndex := index, ModifiedTerm := term\<rparr>) n)"
proof -
  note U = Update_result [OF get perm, of "value" expireTime]
  have w: "withExpiry (expiry n) n = n"
    by (cases n) (simp add: withExpiry_def expiry_def mapInfo_def)
  have s: "withExpiry (expiry n) (stopExpire m) = withExpiry (expiry n) m"
    "withExpiry (expiry n) (armExpire m) = withExpiry (expiry n) m"
    "withExpiry (expiry n) (mapInfo (\<lambda>a. a\<lparr>ExpireTime := expireTime\<rparr>) m) = withExpiry (expiry n) m" for m
    by (simp_all add: withExpiry_def stopExpire_def armExpire_def mapInfo_def)
  have wr: "withExpiry (expiry n) (Write value index term n) =
        mapInfo (\<lambda>a. a\<lparr>NodeValue := (if value \<noteq> [] then value else NodeValue (info n)),
                                     ModifiedIndex := index, ModifiedTerm := term\<rparr>) n"
    by (cases n) (simp add: withExpiry_def expiry_def Write_def mapInfo_def)
  show ?thesis
    using U(1) U(3) by (simp add: U(2) Let_def w s wr)
qed

theorem Update_value_witness:
  "fst (Update fsK ''/k'' ''v2'' Permanent 2 1) =
     Inr ((newEvent ActionUpdate ''/k'' 2 1)\<lparr>PrevValue := ''v1'', Value := ''v2'', Expiration := None\<rparr>)
   \<and> map_option (withExpiry (expiry nodeK))
        (lookup [''k''] (Root (snd (Update fsK ''/k'' ''v2'' Permanent 2 1)))) =
       Some (mapInfo (\<lambda>a. a\<lparr>NodeValue := ''v2'', ModifiedIndex := 2, ModifiedTerm := 1\<rparr>) nodeK)"
proof -
  have c: "pathCleaning (slash # ''/k'') = ''/k''"
    by code_simp
  have g: "fst (InternalGet fsK (pathCleaning (slash # ''/k'')) 2 1) = Inr ([''k''], nodeK)"
    by code_simp
  have p: "fst (hasPerm (fsK\<lparr>Index := 2, Term := 1\<rparr>) nodeK ''w'' False) = None"
    by code_simp
  have f: "\<not> IsDir (info nodeK)" "NodeValue (info nodeK) = ''v1''"
    by (simp_all add: nodeK_def newFile_def)
  note U = Update_value [OF g p, of "''v2''" Permanent]
  show ?thesis
    using conjunct1 [OF U] conjunct2 [OF U] by (simp add: f c)
qed

text \<open>
  C3 (as amended).  For Update on an existing node on which the caller has \<open>w\<close>:
  when the new expiration is not \<open>Permanent\<close> (and the update is not rejected), a
  timer armed for the old expiration is cancelled, the new expiration is recorded and
  a fresh timer is armed; when the new expiration is \<open>Permanent\<close>, the expiration
  and the timer of the node are left as they are.  In both cases a node that had
  exactly one live timer if and only if its expiration was not \<open>Permanent\<close> still
  has this property after the Update.
\<close>

theorem Update_timer:
  assumes get: "fst (InternalGet fs (pathCleaning (slash # nodePath)) index term) = Inr (loc, n)"
    and perm: "fst (hasPerm (fs\<lparr>Index := index, Term := term\<rparr>) n ''w'' False) = None"
  shows "map_option expiry (lookup loc (Root (snd (Update fs nodePath value expireTime index term)))) =
           Some (if (IsDir (info n) \<and> value \<noteq> []) \<or> expireTime = Permanent then expiry n
                 else (expireTime,
                       Suc (if ExpireTime (info n) \<noteq> Permanent then Expirers (info n) - 1
                            else Expirers (info n))))
       \<and> (timerInv n \<longrightarrow>
            map_option timerInv (lookup loc (Root (snd (Update fs nodePath value expireTime index term))))
              = Some True)"
proof -
  note U = Update_result [OF get perm, of "value" expireTime]
  have e: "expiry (Write value index term n) = expiry n"
    by (simp add: expiry_def Write_def mapInfo_def)
  show ?thesis
    by (auto simp add: U(2) Let_def e expiry_def timerInv_def stopExpire_def armExpire_def mapInfo_def Write_def)
qed

theorem Update_timer_witness:
  "timerInv nodeT
   \<and> map_option expiry (lookup [''t''] (Root (snd (Update fsT ''/t'' [] (At 200) 2 1)))) =
       Some (At 200, 1)
   \<and> map_option timerInv (lookup [''t''] (Root (snd (Update fsT ''/t'' [] (At 200) 2 1)))) =
       Some True"
proof -
  have g: "fst (InternalGet fsT (pathCleaning (slash # ''/t'')) 2 1) = Inr ([''t''], nodeT)"
    by code_simp
  have p: "fst (hasPerm (fsT\<lparr>Index := 2, Term := 1\<rparr>) nodeT ''w'' False) = None"
    by code_simp
  have i: "timerInv nodeT" "ExpireTime (info nodeT) = At 100" "Expirers (info nodeT) = 1"
    by (simp_all add: timerInv_def nodeT_def newFile_def armExpire_def mapInfo_def)
  note U = Update_timer [OF g p, of "[]" "At 200"]
  show ?thesis
    using conjunct1 [OF U] conjunct2 [OF U] i by simp
qed

text \<open>
  The claim as stated fails: the node \<open>/t\<close> has an expiration and one live timer;
  after an Update with \<open>Permanent\<close> the timer has not been cancelled and the
  expiration is still recorded.
\<close>

theorem Update_permanent_keeps_timer_counterexample:
  "map_option expiry (lookup [''t''] (Root fsT)) = Some (At 100, 1)
   \<and> map_option expiry (lookup [''t''] (Root (snd (Update fsT ''/t'' [] Permanent 2 1)))) =
       Some (At 100, 1)"
proof -
  have a: "map_option expiry (lookup [''t''] (Root fsT)) = Some (At 100, 1)"
    by code_simp
  have b: "map_option expiry (lookup [''t''] (Root (snd (Update fsT ''/t'' [] Permanent 2 1)))) =
       Some (At 100, 1)"
    by code_simp
  from a b show ?thesis by simp
qed

section \<open>Permission on the parent\<close>

text \<open>
  C2, evaluated on the state of the test \<open>TestDeletePerm\<close>.  Every segment of
  \<open>/sample/gao\<close> up to the direct parent \<open>/sample\<close> exists; the ACL of \<open>/sample\<close>
  is \<open>acl_name\<close>, which does not grant \<open>w\<close>; \<open>hasPermOnParent\<close> nevertheless
  returns \<open>nil\<close>: the loop ends without a check.
\<close>

theorem hasPermOnParent_existing_parent:
  "map_option (\<lambda>n. ACL (info n)) (lookup [''sample''] (Root fsC)) = Some ''acl_name''
   \<and> fst (checkPerm fsC ''acl_name'' ''w'') = Some (Error EcodePermissionDenied ''w'')
   \<and> fst (hasPermOnParent fsC ''/sample/gao'' ''w'') = None"
proof -
  have a: "map_option (\<lambda>n. ACL (info n)) (lookup [''sample''] (Root fsC)) = Some ''acl_name''"
    by code_simp
  have b: "fst (checkPerm fsC ''acl_name'' ''w'') = Some (Error EcodePermissionDenied ''w'')"
    by code_simp
  have c: "fst (hasPermOnParent fsC ''/sample/gao'' ''w'') = None"
    by code_simp
  from a b c show ?thesis by simp
qed

text \<open>
  C4, evaluated on the same state.  The parent \<open>/sample\<close> does not grant \<open>w\<close>, yet
  the recursive \<open>Delete("/sample/gao", true, 1, 1)\<close>, which the test expects to fail,
  succeeds and removes the node.  The same happens in a state reached through the
  operations alone: once the grant \<open>/ACL/admin_aclname/w/admin\<close> is deleted, the root
  no longer grants \<open>w\<close>, and \<open>Delete("/k", false, 3, 1)\<close> still succeeds.
\<close>

theorem Delete_without_parent_permission:
  "fst (checkPerm fsC ''acl_name'' ''w'') = Some (Error EcodePermissionDenied ''w'')
   \<and> map_option (\<lambda>n. NodeValue (info n)) (lookup [''sample'', ''gao''] (Root fsC)) = Some ''zhengao''
   \<and> fst (Delete fsC ''/sample/gao'' True 1 1) =
       Inr ((newEvent ActionDelete ''/sample/gao'' 1 1)\<lparr>PrevValue := ''zhengao''\<rparr>)
   \<and> lookup [''sample'', ''gao''] (Root (snd (Delete fsC ''/sample/gao'' True 1 1))) = None
   \<and> ACL (info (Root fsNoW)) = ''admin_aclname''
   \<and> fst (checkPerm fsNoW ''admin_aclname'' ''w'') = Some (Error EcodePermissionDenied ''w'')
   \<and> fst (Delete fsNoW ''/k'' False 3 1) =
       Inr ((newEvent ActionDelete ''/k'' 3 1)\<lparr>PrevValue := ''v1''\<rparr>)
   \<and> lookup [''k''] (Root (snd (Delete fsNoW ''/k'' False 3 1))) = None"
proof -
  have a: "fst (checkPerm fsC ''acl_name'' ''w'') = Some (Error EcodePermissionDenied ''w'')"
    by code_simp
  have b: "map_option (\<lambda>n. NodeValue (info n)) (lookup [''sample'', ''gao''] (Root fsC)) =
      Some ''zhengao''"
    by code_simp
  have c: "fst (Delete fsC ''/sample/gao'' True 1 1) =
       Inr ((newEvent ActionDelete ''/sample/gao'' 1 1)\<lparr>PrevValue := ''zhengao''\<rparr>)"
    by code_simp
  have d: "lookup [''sample'', ''gao''] (Root (snd (Delete fsC ''/sample/gao'' True 1 1))) = None"
    by code_simp
  have e: "ACL (info (Root fsNoW)) = ''admin_aclname''"
    by code_simp
  have f: "fst (checkPerm fsNoW ''admin_aclname'' ''w'') = Some (Error EcodePermissionDenied ''w'')"
    by code_simp
  have g: "fst (Delete fsNoW ''/k'' False 3 1) =
       Inr ((newEvent ActionDelete ''/k'' 3 1)\<lparr>PrevValue := ''v1''\<rparr>)"
    by code_simp
  have h: "lookup [''k''] (Root (snd (Delete fsNoW ''/k'' False 3 1))) = None"
    by code_simp
  from a b c d e f g h show ?thesis by (intro conjI)
qed

section \<open>The user of the permission checks\<close>

text \<open>
  C10.  The user of every permission check is a constant: \<open>getUser\<close> is \<open>admin\<close>
  (\<open>getUserByCertSubj\<close> of the older variant is \<open>test\<close>).  The outcome of
  \<open>checkPerm\<close> is decided by the tree alone: it succeeds exactly when, for every
  character \<open>c\<close> of \<open>perm\<close>, the node \<open>/ACL/aclName/c/admin\<close> exists.  An operation
  requested by one external caller returns the same result and leaves the same file
  system as the operation requested by any other.
\<close>

theorem permission_user_fixed:
  "getUser = ''admin'' \<and> getUserByCertSubj = ''test''
   \<and> fst (checkPerm fs aclName perm) =
       (if list_all (\<lambda>c. \<not> isl (fst (InternalGet fs (Join [''/ACL'', aclName, [c], ''admin''])
                                       (Index fs) (Term fs)))) perm
        then None else Some (Error EcodePermissionDenied perm))
   \<and> fst (check_perm fs acl perm) =
       (if list_all (\<lambda>c. \<not> isl (fst (InternalGet fs (Join [acl, [c], ''test''])
                                       (Index fs) (Term fs)))) perm
        then None else Some (Error EcodePermissionDenied perm))
   \<and> callAs caller1 fs x = callAs caller2 fs x"
  by (simp add: getUser_def getUserByCertSubj_def checkPerm_def check_perm_def
      checkPermLoop_fst check_permLoop_fst callAs_def)

section \<open>Create: files and directories\<close>

text \<open>
  C7.  When Create succeeds, the event it returns carries the value and, exactly for
  the empty value, the directory flag; and the node found at the (cleaned) path in the
  tree it leaves behind is a directory when the value is empty, and otherwise a file
  holding exactly that value.  CreateDir is Create with the empty value.
\<close>

theorem Create_kind:
  assumes ok: "fst (Create fs nodePath value expireTime index term) = Inr e"
  shows "e = (newEvent ActionCreate (pathCleaning (slash # nodePath)) index term)
               \<lparr>Value := value, Dir := (value = []),
                Expiration := (if expireTime \<noteq> Permanent then Some expireTime else None)\<rparr>
       \<and> map_option (\<lambda>n. (IsDir (info n), NodeValue (info n), Path (info n), Children n))
           (lookup (drop 1 (Split (pathCleaning (slash # nodePath))))
              (Root (snd (Create fs nodePath value expireTime index term)))) =
           Some (value = [], value, pathCleaning (slash # nodePath), [])
       \<and> CreateDir fs nodePath expireTime index term = Create fs nodePath [] expireTime index term"
proof -
  let ?p = "pathCleaning (slash # nodePath)"
  let ?fs1 = "fs\<lparr>Index := index, Term := term\<rparr>"
  let ?cs = "cleanComps nodePath"
  note C = Create_success [OF ok]
  have ok': "fst (InternalCreate ?fs1 ?p value expireTime index term) = Inr e"
    using ok C(3) by simp
  have g: "goodElems (butlast ?cs)" using cleanComps_good by (rule goodElems_butlast)
  then have ne: "[] \<notin> set (butlast ?cs)" by (auto simp: goodElems_def)
  note S = pathCleaning_split [OF C(1)]
  note I = InternalCreate_success [OF ok' S(2) ne]
  have cs: "butlast ?cs @ [snd (path_Split ?p)] = drop 1 (Split ?p)"
    using S(1) C(1) Split_pathCleaning [of nodePath] by simp
  note I2 = I(2) [unfolded cs, folded C(3)]
  from I2 obtain acl where
    "lookup (drop 1 (Split ?p)) (Root (snd (Create fs nodePath value expireTime index term))) =
           Some ((if expireTime \<noteq> Permanent then armExpire else (\<lambda>n. n))
                   (if value \<noteq> [] then newFile ?p value (Index ?fs1) (Term ?fs1) acl expireTime
                    else newDir ?p (Index ?fs1) (Term ?fs1) acl expireTime))"
    by blast
  then have "map_option (\<lambda>n. (IsDir (info n), NodeValue (info n), Path (info n), Children n))
           (lookup (drop 1 (Split ?p)) (Root (snd (Create fs nodePath value expireTime index term)))) =
           Some (value = [], value, ?p, [])"
    by (simp add: newFile_def newDir_def armExpire_def mapInfo_def)
  with I(1) show ?thesis by (simp add: CreateDir_def)
qed

theorem Create_kind_witness:
  "fst (Create fsNew ''/k'' ''v1'' Permanent 1 1) = Inr ((newEvent ActionCreate ''/k'' 1 1)\<lparr>Value := ''v1''\<rparr>)
   \<and> map_option (\<lambda>n. (IsDir (info n), NodeValue (info n), Path (info n), Children n))
        (lookup [''k''] (Root (snd (Create fsNew ''/k'' ''v1'' Permanent 1 1)))) =
       Some (False, ''v1'', ''/k'', [])
   \<and> fst (Create fsNew ''/d'' [] Permanent 1 1) = Inr ((newEvent ActionCreate ''/d'' 1 1)\<lparr>Dir := True\<rparr>)
   \<and> map_option (\<lambda>n. (IsDir (info n), NodeValue (info n), Path (info n), Children n))
        (lookup [''d''] (Root (snd (Create fsNew ''/d'' [] Permanent 1 1)))) =
       Some (True, [], ''/d'', [])"
proof -
  have k: "fst (Create fsNew ''/k'' ''v1'' Permanent 1 1) =
      Inr ((newEvent ActionCreate ''/k'' 1 1)\<lparr>Value := ''v1''\<rparr>)"
    by code_simp
  have d: "fst (Create fsNew ''/d'' [] Permanent 1 1) =
      Inr ((newEvent ActionCreate ''/d'' 1 1)\<lparr>Dir := True\<rparr>)"
    by code_simp
  have pk: "pathCleaning (slash # ''/k'') = ''/k''" "drop 1 (Split ''/k'') = [''k'']"
    by code_simp+
  have pd: "pathCleaning (slash # ''/d'') = ''/d''" "drop 1 (Split ''/d'') = [''d'']"
    by code_simp+
  have rk: "map_option (\<lambda>n. (IsDir (info n), NodeValue (info n), Path (info n), Children n))
        (lookup [''k''] (Root (snd (Create fsNew ''/k'' ''v1'' Permanent 1 1)))) =
       Some (False, ''v1'', ''/k'', [])"
    using conjunct1 [OF conjunct2 [OF Create_kind [OF k]]] unfolding pk by simp
  have rd: "map_option (\<lambda>n. (IsDir (info n), NodeValue (info n), Path (info n), Children n))
        (lookup [''d''] (Root (snd (Create fsNew ''/d'' [] Permanent 1 1)))) =
       Some (True, [], ''/d'', [])"
    using conjunct1 [OF conjunct2 [OF Create_kind [OF d]]] unfolding pd by simp
  from k d rk rd show ?thesis by (intro conjI)
qed

section \<open>Create: the outcomes\<close>

text \<open>
  C5.  For a Create that the permission check made first (\<open>hasPermOnParent\<close> with
  \<open>w\<close>) does not refuse: Create fails with \<open>EcodeNodeExist\<close> when the full path
  already resolves; it fails with \<open>EcodeNotDir\<close> when an intermediate segment exists
  but is a file; and otherwise it succeeds, and every intermediate directory that was
  missing is in the resulting tree a permanent directory (without timer) whose ACL is
  that of its parent and whose creation index and term are those of the operation.
\<close>

theorem Create_outcomes:
  assumes perm: "fst (hasPermOnParent fs (pathCleaning (slash # nodePath)) ''w'') = None"
  shows "(let p = pathCleaning (slash # nodePath);
        cs = drop 1 (Split p);
        result = Create fs nodePath value expireTime index term
    in case fst (InternalGet fs p index term) of
         Inr x \<Rightarrow> fst result = Inl (Error EcodeNodeExist p)
       | Inl err \<Rightarrow>
           if fileOnPath cs (Root fs)
           then fst result = Inl err \<and> err = Error EcodeNotDir (Cause err)
           else (case fst result of
                   Inl e \<Rightarrow> False
                 | Inr e \<Rightarrow>
                     list_all (\<lambda>k. if lookup (take k cs) (Root fs) = None
                                    then createdDir index term cs (Root (snd result)) k else True)
                       [1..<length cs]))"
proof -
  let ?p = "pathCleaning (slash # nodePath)"
  let ?cs = "drop 1 (Split ?p)"
  let ?res = "Create fs nodePath value expireTime index term"
  show ?thesis
  proof (cases "fst (InternalGet fs ?p index term)")
    case (Inr x)
    from Create_exists [OF this] Inr show ?thesis by (simp add: Let_def)
  next
    case (Inl err)
    show ?thesis
    proof (cases "fileOnPath ?cs (Root fs)")
      case f: True
      from Create_notDir [OF perm f, of index "term" "value" expireTime] Inl
      have "fst ?res = Inl err \<and> err = Error EcodeNotDir (Cause err)" by auto
      with Inl f show ?thesis by (simp add: Let_def)
    next
      case nf: False
      note CC = Create_created [OF perm nf Inl]
      from CC(1) obtain e where e: "fst ?res = Inr e" by blast
      have "list_all (\<lambda>k. if lookup (take k ?cs) (Root fs) = None
                                  then createdDir index term ?cs (Root (snd ?res)) k else True)
                     [1..<length ?cs]"
        unfolding list_all_iff using CC(2) by auto
      with Inl nf e show ?thesis by (simp add: Let_def del: One_nat_def)
    qed
  qed
qed

text \<open>
  Three instances, each with the permission granted: \<open>/k\<close> exists; \<open>/k\<close> is a file on the way to \<open>/k/x/y\<close>; and
  \<open>Create("/a/b/c", "x", Permanent, 1, 1)\<close> on the new file system creates \<open>/a\<close>
  and \<open>/a/b\<close>.
\<close>

theorem Create_outcomes_witness:
  "fst (Create fsK ''/k'' ''x'' Permanent 2 1) = Inl (Error EcodeNodeExist ''/k'')
   \<and> fst (Create fsK ''/k/x/y'' ''x'' Permanent 2 1) = Inl (Error EcodeNotDir ''/k'')
   \<and> createdDir 1 1 [''a'', ''b'', ''c''] (Root (snd (Create fsNew ''/a/b/c'' ''x'' Permanent 1 1))) 1
   \<and> createdDir 1 1 [''a'', ''b'', ''c''] (Root (snd (Create fsNew ''/a/b/c'' ''x'' Permanent 1 1))) 2"
proof -
  have p1: "pathCleaning (slash # ''/k'') = ''/k''" by code_simp
  have g1: "fst (InternalGet fsK ''/k'' 2 1) = Inr ([''k''], nodeK)" by code_simp
  have h1: "fst (hasPermOnParent fsK (pathCleaning (slash # ''/k'')) ''w'') = None" by code_simp
  have r1: "fst (Create fsK ''/k'' ''x'' Permanent 2 1) = Inl (Error EcodeNodeExist ''/k'')"
    using Create_outcomes [OF h1, of "''x''" Permanent 2 1] unfolding Let_def p1 g1 by simp
  have p2: "pathCleaning (slash # ''/k/x/y'') = ''/k/x/y''" by code_simp
  have g2: "fst (InternalGet fsK ''/k/x/y'' 2 1) = Inl (Error EcodeNotDir ''/k'')" by code_simp
  have h2: "fst (hasPermOnParent fsK (pathCleaning (slash # ''/k/x/y'')) ''w'') = None"
    by code_simp
  have f2: "fileOnPath (drop 1 (Split ''/k/x/y'')) (Root fsK)" by code_simp
  have r2: "fst (Create fsK ''/k/x/y'' ''x'' Permanent 2 1) = Inl (Error EcodeNotDir ''/k'')"
    using Create_outcomes [OF h2, of "''x''" Permanent 2 1] f2
    unfolding Let_def p2 g2 by simp
  have p3: "pathCleaning (slash # ''/a/b/c'') = ''/a/b/c''" by code_simp
  have c3: "drop 1 (Split ''/a/b/c'') = [''a'', ''b'', ''c'']" by code_simp
  have g3: "fst (InternalGet fsNew ''/a/b/c'' 1 1) = Inl (Error EcodeKeyNotFound ''/a'')" by code_simp
  have h3: "fst (hasPermOnParent fsNew (pathCleaning (slash # ''/a/b/c'')) ''w'') = None"
    by code_simp
  have f3: "\<not> fileOnPath [''a'', ''b'', ''c''] (Root fsNew)" by code_simp
  have l3: "lookup (take 1 [''a'', ''b'', ''c'']) (Root fsNew) = None"
    "lookup (take 2 [''a'', ''b'', ''c'']) (Root fsNew) = None" by code_simp+
  have u3: "[1..<length [''a'', ''b'', ''c'']] = [1, 2]" by code_simp
  have r3: "createdDir 1 1 [''a'', ''b'', ''c''] (Root (snd (Create fsNew ''/a/b/c'' ''x'' Permanent 1 1))) 1
   \<and> createdDir 1 1 [''a'', ''b'', ''c''] (Root (snd (Create fsNew ''/a/b/c'' ''x'' Permanent 1 1))) 2"
    using Create_outcomes [OF h3, of "''x''" Permanent 1 1] f3 l3
    unfolding Let_def p3 c3 g3 u3
    by (cases "fst (Create fsNew ''/a/b/c'' ''x'' Permanent 1 1)") (simp_all del: take.simps lookup.simps)
  from r1 r2 r3 show ?thesis by simp
qed

end
